theory Spec2Isabelle
  imports Main "HOL-Library.Word"
begin

section \<open>Xid objects of psycopg (psycopg/xid\_type.c)\<close>

text \<open>
  The file \<^verbatim>\<open>psycopg/xid_type.c\<close> is C code written against the CPython 2 runtime.
  Python values are modelled by the datatype \<open>pyobj\<close> (the three kinds of value the
  functions of the file distinguish), a raised exception by a value of type \<open>error\<close>,
  and a C function that returns \<^verbatim>\<open>NULL\<close> or \<^verbatim>\<open>-1\<close> with an exception set by a result
  \<open>Inl e\<close>. A Python string is a string of bytes and may hold NUL bytes. A C \<^verbatim>\<open>int\<close>
  has 32 bits. Reference counts, failures of the allocator and failures of the import
  of the standard modules \<^verbatim>\<open>base64\<close> and \<^verbatim>\<open>re\<close> are outside the model.

  The functions of the Python runtime and library that the source calls (the argument
  conversion, \<^verbatim>\<open>base64\<close>, the compiled pattern, string formatting, \<^verbatim>\<open>int\<close>, the
  generic attribute setter, \<^verbatim>\<open>PySequence_GetItem\<close>) are not part of the file. They are
  modelled after CPython 2, each where it is first needed, and named as what they are.
\<close>

subsection \<open>Values, exceptions and the object\<close>

datatype pyobj = PyNone | PyInt int | PyStr string

text \<open>
  \<open>ValueError\<close> and \<open>IndexError\<close> carry the message the source gives them;
  \<open>TypeError\<close> and \<open>OverflowError\<close> are raised by the runtime's conversions;
  \<open>Raised\<close> is an exception of the connection or the cursor.
\<close>

datatype error = ValueError string | IndexError string | TypeError | OverflowError
  | Raised string

text \<open>\<^verbatim>\<open>XidObject\<close>: six object fields; \<^verbatim>\<open>xid_new\<close> sets each of them to \<^verbatim>\<open>None\<close>.\<close>

record XidObject =
  format_id :: pyobj
  gtrid :: pyobj
  bqual :: pyobj
  prepared :: pyobj
  owner :: pyobj
  database :: pyobj

definition xid_new :: XidObject where
  "xid_new = \<lparr>format_id = PyNone, gtrid = PyNone, bqual = PyNone,
              prepared = PyNone, owner = PyNone, database = PyNone\<rparr>"

subsection \<open>Argument conversion (\<^verbatim>\<open>PyArg_ParseTupleAndKeywords\<close>, format \<^verbatim>\<open>"iss"\<close>)\<close>

text \<open>
  Format unit \<^verbatim>\<open>i\<close> converts a Python integer to a C \<^verbatim>\<open>int\<close> (32 bits) and raises
  \<^verbatim>\<open>OverflowError\<close> when the value does not fit; format unit \<^verbatim>\<open>s\<close> hands out the
  character buffer of a Python string and raises \<^verbatim>\<open>TypeError\<close> when the string has an
  embedded NUL byte. Any other kind of argument is a \<^verbatim>\<open>TypeError\<close>.
\<close>

definition parse_i :: "pyobj \<Rightarrow> error + 32 word" where
  "parse_i a = (case a of
       PyInt n \<Rightarrow> if n < - (2 ^ 31) \<or> 2 ^ 31 - 1 < n then Inl OverflowError
                   else Inr (word_of_int n)
     | _ \<Rightarrow> Inl TypeError)"

definition parse_s :: "pyobj \<Rightarrow> error + string" where
  "parse_s a = (case a of
       PyStr s \<Rightarrow> if CHR 0x00 \<in> set s then Inl TypeError else Inr s
     | _ \<Rightarrow> Inl TypeError)"

subsection \<open>\<^verbatim>\<open>xid_init\<close>\<close>

text \<open>
  \<^verbatim>\<open>gtrid_len = strlen(gtrid)\<close> stores a \<^verbatim>\<open>size_t\<close> in an \<^verbatim>\<open>int\<close>: the length is
  reduced modulo \<open>2 ^ 32\<close> and read as a signed value.
\<close>

definition strlen_int :: "string \<Rightarrow> int" where
  "strlen_int s = sint (word_of_nat (length s) :: 32 word)"

text \<open>
  The test \<^verbatim>\<open>gtrid[i] < 0x20 || gtrid[i] >= 0x7f\<close> on the byte value. Where \<^verbatim>\<open>char\<close> is
  signed, a byte above \<open>0x7f\<close> is negative and fails the first comparison; where it is
  unsigned, it fails the second: \<open>not_printable_signed\<close> is the same test.
\<close>

definition not_printable :: "char \<Rightarrow> bool" where
  "not_printable c = ((of_char c :: nat) < 0x20 \<or> (of_char c :: nat) \<ge> 0x7f)"

definition not_printable_signed :: "char \<Rightarrow> bool" where
  "not_printable_signed c =
     (sint (of_char c :: 8 word) < 0x20 \<or> sint (of_char c :: 8 word) \<ge> 0x7f)"

text \<open>The loop \<^verbatim>\<open>for (i = 0; i < len; i++)\<close>: it returns at the first byte that fails.\<close>

fun printable_loop :: "string \<Rightarrow> bool" where
  "printable_loop [] = True"
| "printable_loop (c # cs) = (if not_printable c then False else printable_loop cs)"

definition xid_init :: "XidObject \<Rightarrow> pyobj \<Rightarrow> pyobj \<Rightarrow> pyobj \<Rightarrow> error + XidObject" where
  "xid_init self a1 a2 a3 =
     (case parse_i a1 of Inl e \<Rightarrow> Inl e | Inr fid \<Rightarrow>
      case parse_s a2 of Inl e \<Rightarrow> Inl e | Inr g \<Rightarrow>
      case parse_s a3 of Inl e \<Rightarrow> Inl e | Inr b \<Rightarrow>
      if sint fid < 0 \<or> sint fid > 0x7fffffff
      then Inl (ValueError ''format_id must be a non-negative 32-bit integer'')
      else if strlen_int g > 64
      then Inl (ValueError ''gtrid must be a string no longer than 64 characters'')
      else if \<not> printable_loop (take (nat (strlen_int g)) g)
      then Inl (ValueError ''gtrid must contain only printable characters.'')
      else if strlen_int b > 64
      then Inl (ValueError ''bqual must be a string no longer than 64 characters'')
      else if \<not> printable_loop (take (nat (strlen_int b)) b)
      then Inl (ValueError ''bqual must contain only printable characters.'')
      else Inr (self\<lparr>format_id := PyInt (sint fid), gtrid := PyStr g, bqual := PyStr b\<rparr>))"

text \<open>
  \<^verbatim>\<open>xid_init\<close> is the slot \<^verbatim>\<open>tp_init\<close> of the type. Calling the type,
  \<^verbatim>\<open>Xid(format_id, gtrid, bqual)\<close>, is \<^verbatim>\<open>xid_new\<close>, then \<^verbatim>\<open>xid_init\<close> on the new
  object; \<^verbatim>\<open>x.__init__(format_id, gtrid, bqual)\<close> is \<^verbatim>\<open>xid_init\<close> on the object \<open>x\<close>
  that exists already.
\<close>

definition Xid :: "pyobj \<Rightarrow> pyobj \<Rightarrow> pyobj \<Rightarrow> error + XidObject" where
  "Xid a1 a2 a3 = xid_init xid_new a1 a2 a3"

subsection \<open>The sequence protocol: \<^verbatim>\<open>xid_len\<close> and \<^verbatim>\<open>xid_getitem\<close>\<close>

definition xid_len :: "XidObject \<Rightarrow> int" where
  "xid_len self = 3"

definition xid_getitem :: "XidObject \<Rightarrow> int \<Rightarrow> error + pyobj" where
  "xid_getitem self item =
     (let item = (if item < 0 then item + 3 else item)
      in if item = 0 then Inr (format_id self)
         else if item = 1 then Inr (gtrid self)
         else if item = 2 then Inr (bqual self)
         else Inl (IndexError ''index out of range''))"

text \<open>
  The table \<^verbatim>\<open>xid_sequence\<close> installs the two functions as the slots \<^verbatim>\<open>sq_length\<close> and
  \<^verbatim>\<open>sq_item\<close> of the type and leaves every other slot empty, \<^verbatim>\<open>sq_ass_item\<close> among
  them.
\<close>

record PySequenceMethods =
  sq_length :: "(XidObject \<Rightarrow> int) option"
  sq_item :: "(XidObject \<Rightarrow> int \<Rightarrow> error + pyobj) option"
  sq_ass_item :: "(XidObject \<Rightarrow> int \<Rightarrow> pyobj \<Rightarrow> error + XidObject) option"

definition xid_sequence :: PySequenceMethods where
  "xid_sequence = \<lparr>sq_length = Some xid_len, sq_item = Some xid_getitem, sq_ass_item = None\<rparr>"

text \<open>
  \<^verbatim>\<open>xid_getitem\<close> is static: an Xid is indexed, by \<^verbatim>\<open>x[i]\<close> or from C, through the
  runtime's \<^verbatim>\<open>PySequence_GetItem\<close>. That function adds the length to a negative index
  when the slot \<^verbatim>\<open>sq_length\<close> is filled, and then calls \<^verbatim>\<open>sq_item\<close> with the result.
  \<^verbatim>\<open>PySequence_SetItem\<close> does the same with \<^verbatim>\<open>sq_ass_item\<close>; a type without that slot
  does not support item assignment.
\<close>

definition PySequence_GetItem :: "PySequenceMethods \<Rightarrow> XidObject \<Rightarrow> int \<Rightarrow> error + pyobj" where
  "PySequence_GetItem m s i =
     (case sq_item m of
        None \<Rightarrow> Inl TypeError
      | Some item \<Rightarrow>
          if i < 0
          then (case sq_length m of
                  None \<Rightarrow> item s i
                | Some len \<Rightarrow>
                    (let l = len s
                     in if l < 0 then Inl (Raised ''sq_length'') else item s (i + l)))
          else item s i)"

definition PySequence_SetItem ::
  "PySequenceMethods \<Rightarrow> XidObject \<Rightarrow> int \<Rightarrow> pyobj \<Rightarrow> error + XidObject" where
  "PySequence_SetItem m s i v =
     (case sq_ass_item m of
        None \<Rightarrow> Inl TypeError
      | Some ass_item \<Rightarrow>
          if i < 0
          then (case sq_length m of
                  None \<Rightarrow> ass_item s i v
                | Some len \<Rightarrow>
                    (let l = len s
                     in if l < 0 then Inl (Raised ''sq_length'') else ass_item s (i + l) v))
          else ass_item s i v)"

subsection \<open>The standard library functions the source calls\<close>

text \<open>
  \<^verbatim>\<open>base64.b64encode\<close>: the encoding of RFC 4648 with the standard alphabet and
  \<open>=\<close> padding, three bytes to four characters.
\<close>

definition b64_alphabet :: string where
  "b64_alphabet = ''ABCDEFGHIJKLMNOPQRSTUVWXYZabcdefghijklmnopqrstuvwxyz0123456789+/''"

definition table_b2a_base64 :: "nat \<Rightarrow> char" where
  "table_b2a_base64 v = b64_alphabet ! v"

fun b64encode :: "string \<Rightarrow> string" where
  "b64encode [] = []"
| "b64encode [a] =
     (let x = (of_char a :: nat)
      in [table_b2a_base64 (x div 4), table_b2a_base64 ((x mod 4) * 16),
          CHR ''='', CHR ''=''])"
| "b64encode [a, b] =
     (let x = (of_char a :: nat); y = (of_char b :: nat)
      in [table_b2a_base64 (x div 4), table_b2a_base64 ((x mod 4) * 16 + y div 16),
          table_b2a_base64 ((y mod 16) * 4), CHR ''=''])"
| "b64encode (a # b # c # rest) =
     (let x = (of_char a :: nat); y = (of_char b :: nat); z = (of_char c :: nat)
      in [table_b2a_base64 (x div 4), table_b2a_base64 ((x mod 4) * 16 + y div 16),
          table_b2a_base64 ((y mod 16) * 4 + z div 64), table_b2a_base64 (z mod 64)]
         @ b64encode rest)"

text \<open>
  \<^verbatim>\<open>base64.b64decode\<close> is \<^verbatim>\<open>binascii.a2b_base64\<close>, a scan over the input that keeps
  the position in the current quad, the pending bits and their count. A character
  outside the alphabet is skipped, not refused. A \<open>=\<close> ends the input when it
  stands where padding may stand (at position 3 of a quad, or at position 2 when the
  next character of the alphabet or padding is a \<open>=\<close> too) and is skipped
  otherwise. Pending bits at the end of the input are the error
  \<^verbatim>\<open>Incorrect padding\<close>, which \<^verbatim>\<open>b64decode\<close> raises as \<^verbatim>\<open>TypeError\<close>. (The library
  manual of Python 2 announces an error for characters outside the alphabet; the
  function has never raised one, and Python 3 documents the skipping and offers the
  argument \<^verbatim>\<open>validate\<close> to turn it off.)
\<close>

definition table_a2b_base64 :: "char \<Rightarrow> nat option" where
  "table_a2b_base64 c = map_of (zip b64_alphabet [0..<64]) c"

fun binascii_find_valid :: "string \<Rightarrow> nat \<Rightarrow> char option" where
  "binascii_find_valid [] num = None"
| "binascii_find_valid (c # s) num =
     (if table_a2b_base64 c \<noteq> None \<or> c = CHR ''=''
      then (if num = 0 then Some c else binascii_find_valid s (num - 1))
      else binascii_find_valid s num)"

fun a2b_loop :: "string \<Rightarrow> nat \<Rightarrow> nat \<Rightarrow> nat \<Rightarrow> string \<Rightarrow> nat \<times> string" where
  "a2b_loop [] quad_pos leftbits leftchar bin = (leftbits, bin)"
| "a2b_loop (c # cs) quad_pos leftbits leftchar bin =
     (if c = CHR ''=''
      then (if quad_pos < 2 \<or>
               (quad_pos = 2 \<and> binascii_find_valid (c # cs) 1 \<noteq> Some (CHR ''=''))
            then a2b_loop cs quad_pos leftbits leftchar bin
            else (0, bin))
      else case table_a2b_base64 c of
             None \<Rightarrow> a2b_loop cs quad_pos leftbits leftchar bin
           | Some v \<Rightarrow>
               (let quad_pos = (quad_pos + 1) mod 4;
                    leftchar = leftchar * 64 + v;
                    leftbits = leftbits + 6
                in if leftbits \<ge> 8
                   then a2b_loop cs quad_pos (leftbits - 8)
                          (leftchar mod 2 ^ (leftbits - 8))
                          (bin @ [char_of ((leftchar div 2 ^ (leftbits - 8)) mod 256)])
                   else a2b_loop cs quad_pos leftbits leftchar bin))"

definition b64decode :: "string \<Rightarrow> string option" where
  "b64decode s = (case a2b_loop s 0 0 0 [] of
       (leftbits, bin) \<Rightarrow> if leftbits \<noteq> 0 then None else Some bin)"

text \<open>
  The \<^verbatim>\<open>%d\<close> conversion of \<^verbatim>\<open>PyString_Format\<close> on an integer, and \<^verbatim>\<open>int\<close> on a string
  of decimal digits.
\<close>

definition digit_char :: "nat \<Rightarrow> char" where
  "digit_char d = char_of (48 + d)"

fun dec_digits :: "nat \<Rightarrow> string" where
  "dec_digits n = (if n < 10 then [digit_char n]
                   else dec_digits (n div 10) @ [digit_char (n mod 10)])"

declare dec_digits.simps [simp del]

definition format_d :: "int \<Rightarrow> string" where
  "format_d n = (if n < 0 then CHR ''-'' # dec_digits (nat (- n)) else dec_digits (nat n))"

definition is_digit :: "char \<Rightarrow> bool" where
  "is_digit c = (48 \<le> (of_char c :: nat) \<and> (of_char c :: nat) \<le> 57)"

definition int_of_digits :: "string \<Rightarrow> int" where
  "int_of_digits s = foldl (\<lambda>acc c. acc * 10 + (of_char c - 48)) 0 s"

text \<open>
  \<^verbatim>\<open>regex.match\<close> for the pattern \<^verbatim>\<open>^(\d+)_([^_]*)_([^_]*)$\<close> of
  \<^verbatim>\<open>_xid_get_parse_regex\<close>: a non-empty run of digits, an underscore, and two
  underscore-free fields separated by an underscore, up to the end of the string (the
  last group is greedy and takes a final newline with it, so that \<^verbatim>\<open>$\<close> always matches
  at the very end). The result is the three groups.
\<close>

definition xid_regex_match :: "string \<Rightarrow> (string \<times> string \<times> string) option" where
  "xid_regex_match s =
     (let g1 = takeWhile is_digit s; r1 = dropWhile is_digit s
      in if g1 = [] then None
         else case r1 of
                [] \<Rightarrow> None
              | c # r2 \<Rightarrow>
                  if c \<noteq> CHR ''_'' then None
                  else (let g2 = takeWhile (\<lambda>c. c \<noteq> CHR ''_'') r2;
                            r3 = dropWhile (\<lambda>c. c \<noteq> CHR ''_'') r2
                        in case r3 of
                             [] \<Rightarrow> None
                           | _ # g3 \<Rightarrow> if CHR ''_'' \<in> set g3 then None
                                        else Some (g1, g2, g3)))"

subsection \<open>\<^verbatim>\<open>_xid_encode64\<close>, \<^verbatim>\<open>_xid_decode64\<close> and \<^verbatim>\<open>xid_get_tid\<close>\<close>

definition xid_encode64 :: "pyobj \<Rightarrow> error + pyobj" where
  "xid_encode64 s = (case s of PyStr b \<Rightarrow> Inr (PyStr (b64encode b)) | _ \<Rightarrow> Inl TypeError)"

definition xid_decode64 :: "pyobj \<Rightarrow> error + pyobj" where
  "xid_decode64 s = (case s of
       PyStr b \<Rightarrow> (case b64decode b of None \<Rightarrow> Inl TypeError | Some r \<Rightarrow> Inr (PyStr r))
     | _ \<Rightarrow> Inl TypeError)"

text \<open>
  \<^verbatim>\<open>xid_get_tid\<close> returns a buffer that holds a C string: \<^verbatim>\<open>strncpy\<close> copies the
  bytes of the Python string up to its first NUL byte.
\<close>

definition c_string :: "string \<Rightarrow> string" where
  "c_string s = takeWhile (\<lambda>c. c \<noteq> CHR 0x00) s"

text \<open>
  The function has three ways to return. \<open>Tid s\<close>: a buffer with the C string \<open>s\<close>.
  \<open>Tid_null e\<close>: \<^verbatim>\<open>NULL\<close>, with the exception \<open>e\<close> set; this is the \<^verbatim>\<open>goto exit\<close> of the
  structured branch when an encoding or the formatting fails. \<open>Tid_unset e\<close>: in the
  unparsed branch neither \<^verbatim>\<open>PyString_Size\<close> nor \<^verbatim>\<open>PyString_AsString\<close> is checked, so for
  a \<open>gtrid\<close> that is not a string the size is \<open>-1\<close>, the buffer has \<open>1 + (-1) = 0\<close>
  bytes, nothing is copied into it, and the function returns this buffer, not \<^verbatim>\<open>NULL\<close>,
  with the \<^verbatim>\<open>TypeError\<close> of the two functions still set.
\<close>

datatype tid_result = Tid string | Tid_null error | Tid_unset error

definition xid_get_tid :: "XidObject \<Rightarrow> tid_result" where
  "xid_get_tid self =
     (if format_id self = PyNone
      then (case gtrid self of PyStr g \<Rightarrow> Tid (c_string g) | _ \<Rightarrow> Tid_unset TypeError)
      else case xid_encode64 (gtrid self) of Inl e \<Rightarrow> Tid_null e | Inr egtrid \<Rightarrow>
           case xid_encode64 (bqual self) of Inl e \<Rightarrow> Tid_null e | Inr ebqual \<Rightarrow>
           (case (format_id self, egtrid, ebqual) of
              (PyInt n, PyStr eg, PyStr eb) \<Rightarrow>
                Tid (c_string (format_d n @ ''_'' @ eg @ ''_'' @ eb))
            | _ \<Rightarrow> Tid_null TypeError))"

subsection \<open>\<^verbatim>\<open>_xid_parse_string\<close>, \<^verbatim>\<open>_xid_unparsed_from_string\<close> and \<^verbatim>\<open>xid_from_string\<close>\<close>

definition xid_parse_string :: "pyobj \<Rightarrow> error + XidObject" where
  "xid_parse_string str =
     (case str of
        PyStr s \<Rightarrow>
          (case xid_regex_match s of
             None \<Rightarrow> Inl (ValueError ''bad xid format'')
           | Some (item, egtrid, ebqual) \<Rightarrow>
               (case xid_decode64 (PyStr egtrid) of Inl e \<Rightarrow> Inl e | Inr g \<Rightarrow>
                case xid_decode64 (PyStr ebqual) of Inl e \<Rightarrow> Inl e | Inr b \<Rightarrow>
                Xid (PyInt (int_of_digits item)) g b))
      | _ \<Rightarrow> Inl TypeError)"

definition xid_unparsed_from_string :: "pyobj \<Rightarrow> error + XidObject" where
  "xid_unparsed_from_string str =
     (case Xid (PyInt 0) (PyStr []) (PyStr []) of
        Inl e \<Rightarrow> Inl e
      | Inr xid \<Rightarrow> Inr (xid\<lparr>gtrid := str, format_id := PyNone, bqual := PyNone\<rparr>))"

definition xid_from_string :: "pyobj \<Rightarrow> error + XidObject" where
  "xid_from_string str =
     (case xid_parse_string str of
        Inr rv \<Rightarrow> Inr rv
      | Inl e \<Rightarrow> xid_unparsed_from_string str)"

text \<open>
  \<^verbatim>\<open>xid_ensure\<close> takes any object: an Xid is returned as it is, a string is decoded,
  anything else is a \<^verbatim>\<open>TypeError\<close>.
\<close>

datatype xid_or_obj = An_xid XidObject | An_obj pyobj

definition xid_ensure :: "xid_or_obj \<Rightarrow> error + XidObject" where
  "xid_ensure oxid =
     (case oxid of
        An_xid rv \<Rightarrow> Inr rv
      | An_obj (PyStr s) \<Rightarrow> xid_from_string (PyStr s)
      | An_obj _ \<Rightarrow> Inl TypeError)"

subsection \<open>The member table\<close>

text \<open>
  \<^verbatim>\<open>xid_members\<close> lists six members, each with the flag \<^verbatim>\<open>RO\<close>. The type has no
  \<^verbatim>\<open>tp_setattro\<close> of its own and no instance dictionary, so an attribute assignment goes
  through the generic setter: a name that is not in the table is an
  \<^verbatim>\<open>AttributeError\<close>, a member flagged \<^verbatim>\<open>RO\<close> refuses the assignment with a
  \<^verbatim>\<open>TypeError\<close>, and any other member would be stored.
\<close>

datatype member_flag = RO | RW

datatype member = M_format_id | M_gtrid | M_bqual | M_prepared | M_owner | M_database

definition xid_members :: "(string \<times> member \<times> member_flag) list" where
  "xid_members =
     [(''format_id'', M_format_id, RO), (''gtrid'', M_gtrid, RO), (''bqual'', M_bqual, RO),
      (''prepared'', M_prepared, RO), (''owner'', M_owner, RO), (''database'', M_database, RO)]"

fun member_store :: "member \<Rightarrow> pyobj \<Rightarrow> XidObject \<Rightarrow> XidObject" where
  "member_store M_format_id v self = self\<lparr>format_id := v\<rparr>"
| "member_store M_gtrid v self = self\<lparr>gtrid := v\<rparr>"
| "member_store M_bqual v self = self\<lparr>bqual := v\<rparr>"
| "member_store M_prepared v self = self\<lparr>prepared := v\<rparr>"
| "member_store M_owner v self = self\<lparr>owner := v\<rparr>"
| "member_store M_database v self = self\<lparr>database := v\<rparr>"

definition xid_setattr :: "XidObject \<Rightarrow> string \<Rightarrow> pyobj \<Rightarrow> error + XidObject" where
  "xid_setattr self name v =
     (case map_of xid_members name of
        None \<Rightarrow> Inl (Raised ''AttributeError'')
      | Some (m, RO) \<Rightarrow> Inl TypeError
      | Some (m, RW) \<Rightarrow> Inr (member_store m v self))"

subsection \<open>\<^verbatim>\<open>xid_recover\<close>\<close>

text \<open>
  The connection and its cursor are collaborators: the model is given what each of their
  methods does when called (\<open>None\<close>: it returns, \<open>Some e\<close>: it raises \<open>e\<close>).
  \<^verbatim>\<open>fetchall\<close> returns a list of rows and a row is a tuple of objects.
  \<^verbatim>\<open>xid_recover\<close> returns its result together with the list of what it did to the
  outside and to the objects it builds, in order: the calls on the connection and the
  cursor, and the assignments to a member of the Xid built for row \<open>i\<close>.
\<close>

record connection =
  conn_cursor :: "error option"
  curs_execute :: "string \<Rightarrow> error option"
  curs_fetchall :: "error + pyobj list list"
  curs_close :: "error option"

datatype event = Call_cursor | Call_execute string | Call_fetchall | Call_close
  | Set_member nat member

text \<open>\<^verbatim>\<open>PySequence_GetItem\<close> on a tuple.\<close>

definition sequence_getitem :: "pyobj list \<Rightarrow> nat \<Rightarrow> error + pyobj" where
  "sequence_getitem rec i =
     (if i < length rec then Inr (rec ! i) else Inl (IndexError ''tuple index out of range''))"

text \<open>
  An assignment \<^verbatim>\<open>xid->member = item\<close> in the loop: the object with the member stored,
  and the assignment added to the list of events.
\<close>

definition assign_member ::
  "nat \<Rightarrow> member \<Rightarrow> pyobj \<Rightarrow> XidObject \<times> event list \<Rightarrow> XidObject \<times> event list" where
  "assign_member i m v st = (member_store m v (fst st), snd st @ [Set_member i m])"

text \<open>
  The body of the loop for row \<open>i\<close>, up to the store into the list: each column is
  fetched and then assigned, and a column that cannot be fetched ends the row with the
  assignments made so far.
\<close>

definition recover_row :: "nat \<Rightarrow> pyobj list \<Rightarrow> event list \<times> (error + XidObject)" where
  "recover_row i rec =
     (case sequence_getitem rec 0 of Inl e \<Rightarrow> ([], Inl e) | Inr item0 \<Rightarrow>
      case xid_from_string item0 of Inl e \<Rightarrow> ([], Inl e) | Inr xid \<Rightarrow>
      case sequence_getitem rec 1 of Inl e \<Rightarrow> ([], Inl e) | Inr item1 \<Rightarrow>
      (let st1 = assign_member i M_prepared item1 (xid, [])
       in case sequence_getitem rec 2 of Inl e \<Rightarrow> (snd st1, Inl e) | Inr item2 \<Rightarrow>
      (let st2 = assign_member i M_owner item2 st1
       in case sequence_getitem rec 3 of Inl e \<Rightarrow> (snd st2, Inl e) | Inr item3 \<Rightarrow>
      (let st3 = assign_member i M_database item3 st2
       in (snd st3, Inr (fst st3))))))"

text \<open>
  The loop \<^verbatim>\<open>for (i = 0; i < len; ++i)\<close> over the list \<open>xids\<close> that \<^verbatim>\<open>PyList_New(len)\<close>
  allocated with empty slots; \<^verbatim>\<open>PyList_SET_ITEM(xids, i, xid)\<close> fills slot \<open>i\<close>.
\<close>

function recover_loop ::
  "pyobj list list \<Rightarrow> nat \<Rightarrow> XidObject option list \<Rightarrow> event list
     \<Rightarrow> event list \<times> (error + XidObject option list)" where
  "recover_loop recs i xids tr =
     (if i < length recs
      then (case recover_row i (recs ! i) of
              (ev, Inl e) \<Rightarrow> (tr @ ev, Inl e)
            | (ev, Inr xid) \<Rightarrow> recover_loop recs (Suc i) (xids[i := Some xid]) (tr @ ev))
      else (tr, Inr xids))"
  by pat_completeness auto
termination
  by (relation "measure (\<lambda>(recs, i, xids, tr). length recs - i)") auto

declare recover_loop.simps [simp del]

definition recover_query :: string where
  "recover_query = ''SELECT gid, prepared, owner, database FROM pg_prepared_xacts;''"

definition xid_recover :: "connection \<Rightarrow> event list \<times> (error + XidObject option list)" where
  "xid_recover conn =
     (case conn_cursor conn of
        Some e \<Rightarrow> ([Call_cursor], Inl e)
      | None \<Rightarrow>
     (case curs_execute conn recover_query of
        Some e \<Rightarrow> ([Call_cursor, Call_execute recover_query], Inl e)
      | None \<Rightarrow>
     (case curs_fetchall conn of
        Inl e \<Rightarrow> ([Call_cursor, Call_execute recover_query, Call_fetchall], Inl e)
      | Inr recs \<Rightarrow>
     (case curs_close conn of
        Some e \<Rightarrow>
          ([Call_cursor, Call_execute recover_query, Call_fetchall, Call_close], Inl e)
      | None \<Rightarrow>
          recover_loop recs 0 (replicate (length recs) None)
            [Call_cursor, Call_execute recover_query, Call_fetchall, Call_close]))))"

text \<open>The statements executed on the cursor, read off the list of events.\<close>

fun event_query :: "event \<Rightarrow> string option" where
  "event_query (Call_execute q) = Some q"
| "event_query _ = None"

definition queries :: "event list \<Rightarrow> string list" where
  "queries tr = List.map_filter event_query tr"

section \<open>Theorems\<close>

subsection \<open>Lengths, printable bytes, decimal digits and the pattern\<close>

lemma strlen_int_small: "length s < 2 ^ 31 \<Longrightarrow> strlen_int s = int (length s)"
  unfolding strlen_int_def
  by (simp add: signed_of_nat signed_take_bit_int_eq_self)

lemma sint_word_of_int_32:
  "- (2 ^ 31) \<le> n \<Longrightarrow> n < 2 ^ 31 \<Longrightarrow> sint (word_of_int n :: 32 word) = n"
  by (simp add: signed_of_int signed_take_bit_int_eq_self)

lemma printable_loop_iff: "printable_loop s = (\<forall>c\<in>set s. \<not> not_printable c)"
  by (induction s) auto

lemma c_string_id: "CHR 0x00 \<notin> set s \<Longrightarrow> c_string s = s"
  unfolding c_string_def by (induction s) auto

lemma digit_char_is_digit: "d < 10 \<Longrightarrow> is_digit (digit_char d)"
  by (simp add: is_digit_def digit_char_def)

lemma dec_digits_all: "\<forall>c\<in>set (dec_digits n). is_digit c"
proof (induction n rule: dec_digits.induct)
  case (1 n)
  show ?case
  proof (cases "n < 10")
    case True
    then show ?thesis by (subst dec_digits.simps) (simp add: digit_char_is_digit)
  next
    case False
    with 1 show ?thesis
      by (subst dec_digits.simps) (auto simp: digit_char_is_digit)
  qed
qed

lemma dec_digits_nonempty: "dec_digits n \<noteq> []"
  by (subst dec_digits.simps) simp

lemma int_of_digits_snoc: "int_of_digits (s @ [c]) = int_of_digits s * 10 + (of_char c - 48)"
  by (simp add: int_of_digits_def)

lemma of_char_digit_char: "d < 10 \<Longrightarrow> (of_char (digit_char d) :: int) = 48 + int d"
proof -
  assume d: "d < 10"
  have "(of_char (digit_char d) :: int) = int (of_char (digit_char d))"
    by (simp add: of_nat_of_char)
  also have "\<dots> = int (48 + d)"
    using d by (simp add: digit_char_def)
  finally show ?thesis by simp
qed

lemma int_of_digits_dec: "int_of_digits (dec_digits n) = int n"
proof (induction n rule: dec_digits.induct)
  case (1 n)
  show ?case
  proof (cases "n < 10")
    case True
    then show ?thesis
      by (subst dec_digits.simps) (simp add: int_of_digits_def of_char_digit_char)
  next
    case False
    then have "dec_digits n = dec_digits (n div 10) @ [digit_char (n mod 10)]"
      by (subst dec_digits.simps) simp
    then have "int_of_digits (dec_digits n) = int (n div 10) * 10 + int (n mod 10)"
      using 1 False by (simp add: int_of_digits_snoc of_char_digit_char)
    then show ?thesis by (simp add: zdiv_int zmod_int) 
  qed
qed

lemma is_digit_not_underscore: "is_digit c \<Longrightarrow> c \<noteq> CHR ''_''"
  by (auto simp: is_digit_def)

lemma xid_regex_match_joined:
  assumes "d \<noteq> []" "\<forall>c\<in>set d. is_digit c" "CHR ''_'' \<notin> set a" "CHR ''_'' \<notin> set b"
  shows "xid_regex_match (d @ ''_'' @ a @ ''_'' @ b) = Some (d, a, b)"
proof -
  have nd: "\<not> is_digit (CHR ''_'')" by (simp add: is_digit_def)
  have t1: "takeWhile is_digit (d @ CHR ''_'' # a @ CHR ''_'' # b) = d"
    using assms(2) nd by (simp add: takeWhile_append2 takeWhile_tail)
  have d1: "dropWhile is_digit (d @ CHR ''_'' # a @ CHR ''_'' # b) = CHR ''_'' # a @ CHR ''_'' # b"
    using assms(2) nd by (simp add: dropWhile_append2)
  have t2: "takeWhile (\<lambda>c. c \<noteq> CHR ''_'') (a @ CHR ''_'' # b) = a"
    using assms(3) by (auto simp: takeWhile_tail)
  have d2: "dropWhile (\<lambda>c. c \<noteq> CHR ''_'') (a @ CHR ''_'' # b) = CHR ''_'' # b"
    using assms(3) by (auto simp: dropWhile_append3)
  show ?thesis
    unfolding xid_regex_match_def using assms(1,4) by (simp add: t1 d1 t2 d2 Let_def)
qed

text \<open>The function accepts exactly the strings of the pattern, with these groups.\<close>

lemma xid_regex_match_iff:
  "xid_regex_match s = Some (g1, g2, g3) \<longleftrightarrow>
     s = g1 @ ''_'' @ g2 @ ''_'' @ g3 \<and> g1 \<noteq> [] \<and> (\<forall>c\<in>set g1. is_digit c) \<and>
     CHR ''_'' \<notin> set g2 \<and> CHR ''_'' \<notin> set g3"
proof
  assume "s = g1 @ ''_'' @ g2 @ ''_'' @ g3 \<and> g1 \<noteq> [] \<and> (\<forall>c\<in>set g1. is_digit c) \<and>
     CHR ''_'' \<notin> set g2 \<and> CHR ''_'' \<notin> set g3"
  then show "xid_regex_match s = Some (g1, g2, g3)"
    using xid_regex_match_joined [of g1 g2 g3] by simp
next
  assume m: "xid_regex_match s = Some (g1, g2, g3)"
  let ?r1 = "dropWhile is_digit s"
  from m have g1: "g1 = takeWhile is_digit s" and ne: "g1 \<noteq> []"
    by (auto simp: xid_regex_match_def Let_def split: if_splits list.splits)
  from m obtain r2 where r1: "?r1 = CHR ''_'' # r2"
    by (auto simp: xid_regex_match_def Let_def split: if_splits list.splits)
  let ?r3 = "dropWhile (\<lambda>c. c \<noteq> CHR ''_'') r2"
  from m r1 have g2: "g2 = takeWhile (\<lambda>c. c \<noteq> CHR ''_'') r2"
    by (auto simp: xid_regex_match_def Let_def split: if_splits list.splits)
  from m r1 obtain x where r3: "?r3 = x # g3" and g3: "CHR ''_'' \<notin> set g3"
    by (auto simp: xid_regex_match_def Let_def split: if_splits list.splits)
  have "\<not> (hd ?r3 \<noteq> CHR ''_'')"
    using hd_dropWhile [of "\<lambda>c. c \<noteq> CHR ''_''" r2] r3 by simp
  then have x: "x = CHR ''_''" using r3 by simp
  have "s = g1 @ ?r1" by (simp add: g1)
  also have "?r1 = CHR ''_'' # (g2 @ ?r3)" by (simp add: r1 g2)
  finally have "s = g1 @ ''_'' @ g2 @ ''_'' @ g3" by (simp add: r3 x)
  moreover have "\<forall>c\<in>set g1. is_digit c" using g1 by (auto dest: set_takeWhileD)
  moreover have "CHR ''_'' \<notin> set g2" using g2 by (auto dest: set_takeWhileD)
  ultimately show "s = g1 @ ''_'' @ g2 @ ''_'' @ g3 \<and> g1 \<noteq> [] \<and> (\<forall>c\<in>set g1. is_digit c) \<and>
     CHR ''_'' \<notin> set g2 \<and> CHR ''_'' \<notin> set g3"
    using ne g3 by simp
qed

subsection \<open>Base64: decoding inverts encoding\<close>

lemma b64_alphabet_length: "length b64_alphabet = 64"
  by (simp add: b64_alphabet_def)

lemma b64_alphabet_distinct: "distinct b64_alphabet"
  by (simp add: b64_alphabet_def)

lemma table_a2b_b2a: "v < 64 \<Longrightarrow> table_a2b_base64 (table_b2a_base64 v) = Some v"
  unfolding table_a2b_base64_def table_b2a_base64_def
  using map_of_zip_nth [of b64_alphabet "[0..<64]" v]
  by (simp add: b64_alphabet_length b64_alphabet_distinct)

lemma table_b2a_in_alphabet: "v < 64 \<Longrightarrow> table_b2a_base64 v \<in> set b64_alphabet"
  unfolding table_b2a_base64_def by (simp add: b64_alphabet_length)

lemma alphabet_excludes:
  "CHR ''_'' \<notin> set b64_alphabet" "CHR ''='' \<notin> set b64_alphabet" "CHR 0x00 \<notin> set b64_alphabet"
  by (simp_all add: b64_alphabet_def)

lemma table_b2a_neq:
  assumes "v < 64"
  shows "table_b2a_base64 v \<noteq> CHR ''_''" "table_b2a_base64 v \<noteq> CHR ''=''"
    "table_b2a_base64 v \<noteq> CHR 0x00"
  using table_b2a_in_alphabet [OF assms] alphabet_excludes by auto

lemma a2b_loop_sextet:
  assumes "v < 64"
  shows "a2b_loop (table_b2a_base64 v # cs) qp lb lc bin =
     (if lb + 6 \<ge> 8
      then a2b_loop cs ((qp + 1) mod 4) (lb + 6 - 8) ((lc * 64 + v) mod 2 ^ (lb + 6 - 8))
             (bin @ [char_of (((lc * 64 + v) div 2 ^ (lb + 6 - 8)) mod 256)])
      else a2b_loop cs ((qp + 1) mod 4) (lb + 6) (lc * 64 + v) bin)"
  using table_b2a_neq(2) [OF assms] table_a2b_b2a [OF assms]
  by (simp add: Let_def)

lemma quad_bounds:
  fixes x y z :: nat
  assumes "x < 256" "y < 256" "z < 256"
  shows "x div 4 < 64" "(x mod 4) * 16 + y div 16 < 64" "(y mod 16) * 4 + z div 64 < 64"
    "z mod 64 < 64" "(x mod 4) * 16 < 64" "(y mod 16) * 4 < 64"
  using assms by arith+

lemma regroup_16: fixes x :: nat shows "(x div 4) * 64 + ((x mod 4) * 16 + v) = x * 16 + v"
  by arith

lemma regroup_4: fixes y :: nat shows "(y div 16) * 64 + ((y mod 16) * 4 + v) = y * 4 + v"
  by arith

lemma regroup_64: fixes z :: nat shows "(z div 64) * 64 + z mod 64 = z"
  by arith

lemma quad_arith:
  fixes x y z :: nat
  assumes "x < 256" "y < 256" "z < 256"
  shows "((x div 4) * 64 + ((x mod 4) * 16 + y div 16)) div 16 mod 256 = x"
    "((x div 4) * 64 + ((x mod 4) * 16 + y div 16)) mod 16 = y div 16"
    "((y div 16) * 64 + ((y mod 16) * 4 + z div 64)) div 4 mod 256 = y"
    "((y div 16) * 64 + ((y mod 16) * 4 + z div 64)) mod 4 = z div 64"
    "((z div 64) * 64 + z mod 64) mod 256 = z"
proof -
  have ly: "y div 16 < 16" and lz: "z div 64 < 4" using assms by arith+
  show "((x div 4) * 64 + ((x mod 4) * 16 + y div 16)) div 16 mod 256 = x"
    unfolding regroup_16 using ly assms(1) by simp
  show "((x div 4) * 64 + ((x mod 4) * 16 + y div 16)) mod 16 = y div 16"
    unfolding regroup_16 using ly by simp
  show "((y div 16) * 64 + ((y mod 16) * 4 + z div 64)) div 4 mod 256 = y"
    unfolding regroup_4 using lz assms(2) by simp
  show "((y div 16) * 64 + ((y mod 16) * 4 + z div 64)) mod 4 = z div 64"
    unfolding regroup_4 using lz by simp
  show "((z div 64) * 64 + z mod 64) mod 256 = z"
    unfolding regroup_64 using assms(3) by simp
qed

lemma pad_arith:
  fixes x y :: nat
  assumes "x < 256" "y < 256"
  shows "((x div 4) * 64 + (x mod 4) * 16) div 16 mod 256 = x"
    "((y div 16) * 64 + (y mod 16) * 4) div 4 mod 256 = y"
  using quad_arith(1) [of x 0 0] quad_arith(3) [of 0 y 0] assms regroup_16 [of x 0] regroup_4 [of y 0]
  by simp_all


lemma a2b_loop_quad:
  fixes a b c :: char
  defines "x \<equiv> (of_char a :: nat)" and "y \<equiv> (of_char b :: nat)" and "z \<equiv> (of_char c :: nat)"
  shows "a2b_loop (table_b2a_base64 (x div 4) # table_b2a_base64 ((x mod 4) * 16 + y div 16) #
           table_b2a_base64 ((y mod 16) * 4 + z div 64) # table_b2a_base64 (z mod 64) # rest)
           0 0 0 bin
         = a2b_loop rest 0 0 0 (bin @ [a, b, c])"
proof -
  have lt: "x < 256" "y < 256" "z < 256" by (simp_all add: x_def y_def z_def)
  note B = quad_bounds [OF lt]
  note A = quad_arith [OF lt]
  have cx: "char_of x = a" "char_of y = b" "char_of z = c" by (simp_all add: x_def y_def z_def)
  show ?thesis
    by (simp add: a2b_loop_sextet B A cx del: a2b_loop.simps)
qed

lemma a2b_loop_pad2:
  fixes a :: char
  defines "x \<equiv> (of_char a :: nat)"
  shows "a2b_loop [table_b2a_base64 (x div 4), table_b2a_base64 ((x mod 4) * 16),
           CHR ''='', CHR ''='']  0 0 0 bin = (0, bin @ [a])"
proof -
  have lt: "x < 256" by (simp add: x_def)
  note B = quad_bounds [OF lt lt lt]
  note A = pad_arith [OF lt lt]
  have cx: "char_of x = a" by (simp add: x_def)
  have m: "((x div 4) * 64 + (x mod 4) * 16) mod 16 = 0" by arith
  have "a2b_loop [table_b2a_base64 (x div 4), table_b2a_base64 ((x mod 4) * 16),
           CHR ''='', CHR ''='']  0 0 0 bin = a2b_loop [CHR ''='', CHR ''=''] (Suc (Suc 0)) 4 0 (bin @ [a])"
    by (simp add: a2b_loop_sextet B A cx m del: a2b_loop.simps)
  also have "\<dots> = (0, bin @ [a])"
    by simp
  finally show ?thesis .
qed

lemma a2b_loop_pad1:
  fixes a b :: char
  defines "x \<equiv> (of_char a :: nat)" and "y \<equiv> (of_char b :: nat)"
  shows "a2b_loop [table_b2a_base64 (x div 4), table_b2a_base64 ((x mod 4) * 16 + y div 16),
           table_b2a_base64 ((y mod 16) * 4), CHR ''='']  0 0 0 bin = (0, bin @ [a, b])"
proof -
  have lt: "x < 256" "y < 256" by (simp_all add: x_def y_def)
  note B = quad_bounds [OF lt lt(1)]
  note A = quad_arith(1,2) [OF lt lt(1)] pad_arith [OF lt]
  have cx: "char_of x = a" "char_of y = b" by (simp_all add: x_def y_def)
  have m: "((y div 16) * 64 + (y mod 16) * 4) mod 4 = 0" by arith
  have "a2b_loop [table_b2a_base64 (x div 4), table_b2a_base64 ((x mod 4) * 16 + y div 16),
           table_b2a_base64 ((y mod 16) * 4), CHR ''='']  0 0 0 bin
        = a2b_loop [CHR ''=''] 3 2 0 (bin @ [a, b])"
    by (simp add: a2b_loop_sextet B A cx m del: a2b_loop.simps)
  also have "\<dots> = (0, bin @ [a, b])"
    by simp
  finally show ?thesis .
qed

lemma a2b_loop_b64encode: "a2b_loop (b64encode s) 0 0 0 bin = (0, bin @ s)"
proof (induction s arbitrary: bin rule: b64encode.induct)
  case 1
  show ?case by simp
next
  case (2 a)
  show ?case using a2b_loop_pad2 [of a bin] by (simp add: Let_def del: a2b_loop.simps)
next
  case (3 a b)
  show ?case using a2b_loop_pad1 [of a b bin] by (simp add: Let_def del: a2b_loop.simps)
next
  case (4 a b c rest)
  have IH: "a2b_loop (b64encode rest) 0 0 0 (bin @ [a, b, c]) = (0, (bin @ [a, b, c]) @ rest)"
    using 4 by blast
  show ?case using a2b_loop_quad [of a b c "b64encode rest" bin] IH
    by (simp add: Let_def del: a2b_loop.simps)
qed

lemma b64decode_b64encode: "b64decode (b64encode s) = Some s"
  by (simp add: b64decode_def a2b_loop_b64encode)

lemma b64encode_chars: "c \<in> set (b64encode s) \<Longrightarrow> c \<in> set b64_alphabet \<or> c = CHR ''=''"
proof (induction s rule: b64encode.induct)
  case 1
  then show ?case by simp
next
  case (2 a)
  have lt: "(of_char a :: nat) < 256" by simp
  note B = quad_bounds [OF lt lt lt]
  from 2 show ?case by (auto simp: Let_def table_b2a_in_alphabet B)
next
  case (3 a b)
  have lt: "(of_char a :: nat) < 256" "(of_char b :: nat) < 256" by simp_all
  note B = quad_bounds [OF lt lt(1)]
  from 3 show ?case by (auto simp: Let_def table_b2a_in_alphabet B)
next
  case (4 a b c rest)
  have lt: "(of_char a :: nat) < 256" "(of_char b :: nat) < 256" "(of_char c :: nat) < 256" by simp_all
  note B = quad_bounds [OF lt]
  from 4 show ?case by (auto simp: Let_def table_b2a_in_alphabet B)
qed

lemma b64encode_no_underscore: "CHR ''_'' \<notin> set (b64encode s)"
  using b64encode_chars [of "CHR ''_''" s] alphabet_excludes(1) by auto

lemma b64encode_no_nul: "CHR 0x00 \<notin> set (b64encode s)"
  using b64encode_chars [of "CHR 0x00" s] alphabet_excludes(3) by auto

subsection \<open>What the constructor accepts\<close>

lemma not_printable_nul: "not_printable (CHR 0x00)"
  by (simp add: not_printable_def)

lemma printable_no_nul: "\<forall>c\<in>set s. \<not> not_printable c \<Longrightarrow> CHR 0x00 \<notin> set s"
  using not_printable_nul by auto

lemma parse_i_in_range:
  "- (2 ^ 31) \<le> n \<Longrightarrow> n \<le> 2 ^ 31 - 1 \<Longrightarrow> parse_i (PyInt n) = Inr (word_of_int n)"
  by (simp add: parse_i_def)

text \<open>What \<^verbatim>\<open>Xid(n, g, b)\<close> does, check by check, for arguments that pass the conversion.\<close>

lemma Xid_checks:
  assumes n: "- (2 ^ 31) \<le> n" "n \<le> 2 ^ 31 - 1"
    and nul: "CHR 0x00 \<notin> set g" "CHR 0x00 \<notin> set b"
    and len: "length g < 2 ^ 31" "length b < 2 ^ 31"
  shows "Xid (PyInt n) (PyStr g) (PyStr b) =
     (if n < 0
      then Inl (ValueError ''format_id must be a non-negative 32-bit integer'')
      else if 64 < length g
      then Inl (ValueError ''gtrid must be a string no longer than 64 characters'')
      else if \<exists>c\<in>set g. not_printable c
      then Inl (ValueError ''gtrid must contain only printable characters.'')
      else if 64 < length b
      then Inl (ValueError ''bqual must be a string no longer than 64 characters'')
      else if \<exists>c\<in>set b. not_printable c
      then Inl (ValueError ''bqual must contain only printable characters.'')
      else Inr \<lparr>format_id = PyInt n, gtrid = PyStr g, bqual = PyStr b,
                 prepared = PyNone, owner = PyNone, database = PyNone\<rparr>)"
proof -
  have s: "sint (word_of_int n :: 32 word) = n"
    using n by (simp add: sint_word_of_int_32)
  have hi: "\<not> n > 0x7fffffff" using n by simp
  show ?thesis
    unfolding Xid_def xid_init_def
    using hi by (simp add: parse_i_in_range [OF n] parse_s_def nul s strlen_int_small [OF len(1)]
        strlen_int_small [OF len(2)] printable_loop_iff xid_new_def)
qed

lemma Xid_valid:
  assumes "0 \<le> n" "n \<le> 0x7fffffff"
    and "length g \<le> 64" "\<forall>c\<in>set g. \<not> not_printable c"
    and "length b \<le> 64" "\<forall>c\<in>set b. \<not> not_printable c"
  shows "Xid (PyInt n) (PyStr g) (PyStr b) =
     Inr \<lparr>format_id = PyInt n, gtrid = PyStr g, bqual = PyStr b,
          prepared = PyNone, owner = PyNone, database = PyNone\<rparr>"
proof -
  have len: "length g < 2 ^ 31" "length b < 2 ^ 31" using assms(3,5) by simp_all
  have n: "- (2 ^ 31) \<le> n" "n \<le> 2 ^ 31 - 1" using assms(1,2) by simp_all
  show ?thesis
    using Xid_checks [OF n printable_no_nul [OF assms(4)] printable_no_nul [OF assms(6)] len] assms
    by simp
qed

text \<open>
  The length checks read the length through an \<^verbatim>\<open>int\<close>. A component of \<open>2 ^ 31\<close> bytes
  has the length \<open>- 2 ^ 31\<close> there: it passes the length check and none of its bytes is
  looked at.
\<close>

lemma strlen_int_wraps: "strlen_int (replicate (2 ^ 31) c) = - (2 ^ 31)"
  by (simp add: strlen_int_def)

lemma huge_gtrid_accepted:
  "Xid (PyInt 1) (PyStr (replicate (2 ^ 31) (CHR ''a''))) (PyStr []) =
     Inr \<lparr>format_id = PyInt 1, gtrid = PyStr (replicate (2 ^ 31) (CHR ''a'')), bqual = PyStr [],
          prepared = PyNone, owner = PyNone, database = PyNone\<rparr>"
proof -
  have l: "strlen_int (replicate (2 ^ 31) (CHR ''a'')) = - (2 ^ 31)"
    by (rule strlen_int_wraps)
  have e: "strlen_int [] = 0" by (simp add: strlen_int_def)
  show ?thesis
    unfolding Xid_def xid_init_def using l
    by (simp add: parse_i_def parse_s_def e xid_new_def)
qed

lemma Xid_fails:
  assumes len: "length g < 2 ^ 31" "length b < 2 ^ 31"
    and v: "n < 0 \<or> 0x7fffffff < n \<or> 64 < length g \<or> (\<exists>c\<in>set g. not_printable c) \<or>
            64 < length b \<or> (\<exists>c\<in>set b. not_printable c)"
  shows "\<exists>e. Xid (PyInt n) (PyStr g) (PyStr b) = Inl e"
proof (cases "- (2 ^ 31) \<le> n \<and> n \<le> 2 ^ 31 - 1")
  case False
  then show ?thesis by (auto simp: Xid_def xid_init_def parse_i_def)
next
  case True
  then have n: "- (2 ^ 31) \<le> n" "n \<le> 2 ^ 31 - 1" by simp_all
  show ?thesis
  proof (cases "CHR 0x00 \<in> set g \<or> CHR 0x00 \<in> set b")
    case True
    then show ?thesis
      using n by (auto simp: Xid_def xid_init_def parse_i_def parse_s_def)
  next
    case False
    then have nul: "CHR 0x00 \<notin> set g" "CHR 0x00 \<notin> set b" by simp_all
    from v n have "n < 0 \<or> 64 < length g \<or> (\<exists>c\<in>set g. not_printable c) \<or>
            64 < length b \<or> (\<exists>c\<in>set b. not_printable c)" by auto
    then show ?thesis
      unfolding Xid_checks [OF n nul len] by auto
  qed
qed

lemma Xid_empty: "Xid (PyInt 0) (PyStr []) (PyStr []) =
     Inr \<lparr>format_id = PyInt 0, gtrid = PyStr [], bqual = PyStr [],
          prepared = PyNone, owner = PyNone, database = PyNone\<rparr>"
  using Xid_valid [of 0 "[]" "[]"] by simp

lemma xid_unparsed_from_string_eq:
  "xid_unparsed_from_string str =
     Inr \<lparr>format_id = PyNone, gtrid = str, bqual = PyNone,
          prepared = PyNone, owner = PyNone, database = PyNone\<rparr>"
  by (simp add: xid_unparsed_from_string_def Xid_empty)

subsection \<open>The transaction id of a structured Xid\<close>

lemma format_d_nonneg: "0 \<le> n \<Longrightarrow> format_d n = dec_digits (nat n)"
  by (simp add: format_d_def)

lemma is_digit_not_nul: "is_digit c \<Longrightarrow> c \<noteq> CHR 0x00"
  by (auto simp: is_digit_def)

lemma format_d_no_nul: "CHR 0x00 \<notin> set (format_d n)"
proof -
  have "CHR 0x00 \<notin> set (dec_digits m)" for m
    using dec_digits_all [of m] is_digit_not_nul by blast
  then show ?thesis by (simp add: format_d_def)
qed

lemma tid_no_nul:
  "CHR 0x00 \<notin> set (format_d n @ ''_'' @ b64encode g @ ''_'' @ b64encode b)"
  by (simp add: format_d_no_nul b64encode_no_nul)

lemma xid_get_tid_structured:
  assumes "format_id x = PyInt n" "gtrid x = PyStr g" "bqual x = PyStr b"
  shows "xid_get_tid x = Tid (format_d n @ ''_'' @ b64encode g @ ''_'' @ b64encode b)"
  using assms c_string_id [OF tid_no_nul [of n g b]]
  by (simp add: xid_get_tid_def xid_encode64_def)

lemma xid_get_tid_unparsed:
  assumes "format_id x = PyNone" "gtrid x = PyStr g"
  shows "xid_get_tid x = Tid (c_string g)"
  using assms by (simp add: xid_get_tid_def)

lemma xid_parse_string_tid:
  assumes "0 \<le> n"
  shows "xid_parse_string (PyStr (format_d n @ ''_'' @ b64encode g @ ''_'' @ b64encode b))
         = Xid (PyInt n) (PyStr g) (PyStr b)"
proof -
  have m: "xid_regex_match (format_d n @ ''_'' @ b64encode g @ ''_'' @ b64encode b)
           = Some (format_d n, b64encode g, b64encode b)"
    using assms
    by (intro xid_regex_match_joined)
       (simp_all add: format_d_nonneg dec_digits_nonempty dec_digits_all b64encode_no_underscore)
  have i: "int_of_digits (format_d n) = n"
    using assms by (simp add: format_d_nonneg int_of_digits_dec)
  show ?thesis
    unfolding xid_parse_string_def using m i
    by (simp add: xid_decode64_def b64decode_b64encode)
qed

subsection \<open>Round trip\<close>

text \<open>
  C1. For every valid triple (\<open>format_id\<close> in \<open>[0, 0x7fffffff]\<close>, \<open>gtrid\<close> and
  \<open>bqual\<close> of at most 64 bytes, every byte in \<open>[0x20, 0x7f)\<close>) the Xid can be built,
  \<^verbatim>\<open>xid_get_tid\<close> returns a transaction id for it, and \<^verbatim>\<open>xid_from_string\<close> on that
  transaction id returns the same Xid: the same \<open>format_id\<close>, \<open>gtrid\<close> and \<open>bqual\<close>.
\<close>

theorem roundtrip_decode_encode:
  assumes "0 \<le> fid" "fid \<le> 0x7fffffff"
    and "length g \<le> 64" "\<forall>c\<in>set g. 0x20 \<le> (of_char c :: nat) \<and> (of_char c :: nat) < 0x7f"
    and "length b \<le> 64" "\<forall>c\<in>set b. 0x20 \<le> (of_char c :: nat) \<and> (of_char c :: nat) < 0x7f"
  shows "\<exists>x tid. Xid (PyInt fid) (PyStr g) (PyStr b) = Inr x \<and>
           xid_get_tid x = Tid tid \<and>
           xid_from_string (PyStr tid) = Inr x \<and>
           format_id x = PyInt fid \<and> gtrid x = PyStr g \<and> bqual x = PyStr b"
proof -
  let ?x = "\<lparr>format_id = PyInt fid, gtrid = PyStr g, bqual = PyStr b,
             prepared = PyNone, owner = PyNone, database = PyNone\<rparr>"
  let ?tid = "format_d fid @ ''_'' @ b64encode g @ ''_'' @ b64encode b"
  have pg: "\<forall>c\<in>set g. \<not> not_printable c" using assms(4) by (auto simp: not_printable_def)
  have pb: "\<forall>c\<in>set b. \<not> not_printable c" using assms(6) by (auto simp: not_printable_def)
  have X: "Xid (PyInt fid) (PyStr g) (PyStr b) = Inr ?x"
    by (rule Xid_valid [OF assms(1,2,3) pg assms(5) pb])
  have T: "xid_get_tid ?x = Tid ?tid"
    by (rule xid_get_tid_structured) simp_all
  have P: "xid_parse_string (PyStr ?tid) = Inr ?x"
    using xid_parse_string_tid [OF assms(1), of g b] X by simp
  have D: "xid_from_string (PyStr ?tid) = Inr ?x"
    unfolding xid_from_string_def using P by simp
  show ?thesis using X T D by (intro exI [of _ ?x] exI [of _ ?tid]) simp
qed

theorem roundtrip_decode_encode_witness:
  "\<exists>x. Xid (PyInt 1) (PyStr ''abc'') (PyStr ''xyz'') = Inr x \<and>
        xid_get_tid x = Tid ''1_YWJj_eHl6'' \<and>
        xid_from_string (PyStr ''1_YWJj_eHl6'') = Inr x \<and>
        format_id x = PyInt 1 \<and> gtrid x = PyStr ''abc'' \<and> bqual x = PyStr ''xyz''"
proof -
  have t: "xid_get_tid \<lparr>format_id = PyInt 1, gtrid = PyStr ''abc'', bqual = PyStr ''xyz'',
             prepared = PyNone, owner = PyNone, database = PyNone\<rparr> = Tid ''1_YWJj_eHl6''"
    by code_simp
  have x: "Xid (PyInt 1) (PyStr ''abc'') (PyStr ''xyz'') =
      Inr \<lparr>format_id = PyInt 1, gtrid = PyStr ''abc'', bqual = PyStr ''xyz'',
             prepared = PyNone, owner = PyNone, database = PyNone\<rparr>"
    by code_simp
  show ?thesis
    using roundtrip_decode_encode [of 1 "''abc''" "''xyz''"] t x by auto
qed

subsection \<open>Decoding a transaction id\<close>

lemma xid_from_string_fallback:
  "xid_parse_string str = Inl e \<Longrightarrow>
   xid_from_string str =
     Inr \<lparr>format_id = PyNone, gtrid = str, bqual = PyNone,
          prepared = PyNone, owner = PyNone, database = PyNone\<rparr>"
  by (simp add: xid_from_string_def xid_unparsed_from_string_eq)

lemma xid_from_string_total: "\<exists>x. xid_from_string str = Inr x"
  by (simp add: xid_from_string_def xid_unparsed_from_string_eq split: sum.splits)

text \<open>
  C2. For every input string \<^verbatim>\<open>xid_from_string\<close> returns an Xid and never fails. When the
  structured parse does not succeed, and in particular when the string does not match
  the pattern, the result is the unparsed Xid: \<open>gtrid\<close> is the input string, and
  \<open>format_id\<close> and \<open>bqual\<close> are \<^verbatim>\<open>None\<close>.
\<close>

theorem xid_from_string_never_fails:
  "(\<exists>x. xid_from_string (PyStr s) = Inr x) \<and>
   ((\<exists>e. xid_parse_string (PyStr s) = Inl e) \<longrightarrow>
      xid_from_string (PyStr s) =
        Inr \<lparr>format_id = PyNone, gtrid = PyStr s, bqual = PyNone,
             prepared = PyNone, owner = PyNone, database = PyNone\<rparr>) \<and>
   (xid_regex_match s = None \<longrightarrow>
      xid_from_string (PyStr s) =
        Inr \<lparr>format_id = PyNone, gtrid = PyStr s, bqual = PyNone,
             prepared = PyNone, owner = PyNone, database = PyNone\<rparr>)"
  using xid_from_string_total [of "PyStr s"] xid_from_string_fallback [of "PyStr s"]
  by (auto simp: xid_parse_string_def)

text \<open>The string \<^verbatim>\<open>some_random_prepared_name\<close> does not match: its first field is not decimal.\<close>

theorem xid_from_string_never_fails_witness:
  "xid_regex_match ''some_random_prepared_name'' = None \<and>
   xid_from_string (PyStr ''some_random_prepared_name'') =
     Inr \<lparr>format_id = PyNone, gtrid = PyStr ''some_random_prepared_name'', bqual = PyNone,
          prepared = PyNone, owner = PyNone, database = PyNone\<rparr>"
proof -
  have m: "xid_regex_match ''some_random_prepared_name'' = None"
    by (simp add: xid_regex_match_def is_digit_def)
  show ?thesis
    using xid_from_string_never_fails [of "''some_random_prepared_name''"] m by simp
qed

text \<open>
  C3, the claim as stated fails: the string \<^verbatim>\<open>1_%%%_eHl6\<close> matches the pattern and its
  middle field has no character of the base64 alphabet. The decoder skips such
  characters, so the field decodes to the empty string, the triple \<open>(1, "", "xyz")\<close>
  is valid, and the result is a structured Xid, not the unparsed one.
\<close>

theorem malformed_base64_counterexample:
  "xid_from_string (PyStr ''1_%%%_eHl6'') =
     Inr \<lparr>format_id = PyInt 1, gtrid = PyStr [], bqual = PyStr ''xyz'',
          prepared = PyNone, owner = PyNone, database = PyNone\<rparr> \<and>
   xid_from_string (PyStr ''1_%%%_eHl6'') \<noteq>
     Inr \<lparr>format_id = PyNone, gtrid = PyStr ''1_%%%_eHl6'', bqual = PyNone,
          prepared = PyNone, owner = PyNone, database = PyNone\<rparr>"
proof -
  have "xid_from_string (PyStr ''1_%%%_eHl6'') =
     Inr \<lparr>format_id = PyInt 1, gtrid = PyStr [], bqual = PyStr ''xyz'',
          prepared = PyNone, owner = PyNone, database = PyNone\<rparr>"
    by code_simp
  then show ?thesis by simp
qed

text \<open>
  C3, amended. For every string that matches the pattern and whose middle or last field
  the base64 decoder rejects (bits are left over at the end of the field: incorrect
  padding), or whose decoded components (each shorter than \<open>2 ^ 31\<close> bytes) break a rule
  of the constructor (\<open>format_id\<close> above \<open>0x7fffffff\<close>, more than 64 bytes, a byte
  outside \<open>[0x20, 0x7f)\<close>), \<^verbatim>\<open>xid_from_string\<close> returns the unparsed Xid whose \<open>gtrid\<close>
  is the whole string. Examples are \<^verbatim>\<open>1_Y_eHl6\<close> (rejected by the decoder) and
  \<^verbatim>\<open>1_AQ==_eHl6\<close> (the byte \<open>0x01\<close>).
\<close>

theorem structured_parse_abandoned:
  assumes "xid_regex_match s = Some (item, egtrid, ebqual)"
    and "b64decode egtrid = None \<or> b64decode ebqual = None \<or>
         (\<exists>g b. b64decode egtrid = Some g \<and> b64decode ebqual = Some b \<and>
                length g < 2 ^ 31 \<and> length b < 2 ^ 31 \<and>
                (0x7fffffff < int_of_digits item \<or>
                 64 < length g \<or> (\<exists>c\<in>set g. (of_char c :: nat) < 0x20 \<or> 0x7f \<le> (of_char c :: nat)) \<or>
                 64 < length b \<or> (\<exists>c\<in>set b. (of_char c :: nat) < 0x20 \<or> 0x7f \<le> (of_char c :: nat))))"
  shows "xid_from_string (PyStr s) =
           Inr \<lparr>format_id = PyNone, gtrid = PyStr s, bqual = PyNone,
                prepared = PyNone, owner = PyNone, database = PyNone\<rparr>"
proof -
  let ?fails = "\<exists>e. xid_parse_string (PyStr s) = Inl e"
  have ?fails
  proof (cases "b64decode egtrid")
    case None
    then show ?thesis by (simp add: xid_parse_string_def assms(1) xid_decode64_def)
  next
    case g: (Some g)
    show ?thesis
    proof (cases "b64decode ebqual")
      case None
      then show ?thesis by (simp add: xid_parse_string_def assms(1) xid_decode64_def g)
    next
      case b: (Some b)
      from assms(2) g b have len: "length g < 2 ^ 31" "length b < 2 ^ 31"
        and "0x7fffffff < int_of_digits item \<or>
         64 < length g \<or> (\<exists>c\<in>set g. (of_char c :: nat) < 0x20 \<or> 0x7f \<le> (of_char c :: nat)) \<or>
         64 < length b \<or> (\<exists>c\<in>set b. (of_char c :: nat) < 0x20 \<or> 0x7f \<le> (of_char c :: nat))"
        by simp_all
      then have "int_of_digits item < 0 \<or> 0x7fffffff < int_of_digits item \<or>
          64 < length g \<or> (\<exists>c\<in>set g. not_printable c) \<or>
          64 < length b \<or> (\<exists>c\<in>set b. not_printable c)"
        unfolding not_printable_def by blast
      from Xid_fails [OF len this] show ?thesis
        by (simp add: xid_parse_string_def assms(1) xid_decode64_def g b)
    qed
  qed
  then show ?thesis
    using xid_from_string_fallback by blast
qed

theorem structured_parse_abandoned_witness:
  "xid_regex_match ''1_Y_eHl6'' = Some (''1'', ''Y'', ''eHl6'') \<and> b64decode ''Y'' = None \<and>
   xid_from_string (PyStr ''1_Y_eHl6'') =
     Inr \<lparr>format_id = PyNone, gtrid = PyStr ''1_Y_eHl6'', bqual = PyNone,
          prepared = PyNone, owner = PyNone, database = PyNone\<rparr> \<and>
   xid_regex_match ''1_AQ==_eHl6'' = Some (''1'', ''AQ=='', ''eHl6'') \<and>
   b64decode ''AQ=='' = Some [CHR 0x01] \<and> b64decode ''eHl6'' = Some ''xyz'' \<and>
   xid_from_string (PyStr ''1_AQ==_eHl6'') =
     Inr \<lparr>format_id = PyNone, gtrid = PyStr ''1_AQ==_eHl6'', bqual = PyNone,
          prepared = PyNone, owner = PyNone, database = PyNone\<rparr>"
proof -
  have m1: "xid_regex_match ''1_Y_eHl6'' = Some (''1'', ''Y'', ''eHl6'')" by code_simp
  have d1: "b64decode ''Y'' = None" by code_simp
  have m2: "xid_regex_match ''1_AQ==_eHl6'' = Some (''1'', ''AQ=='', ''eHl6'')" by code_simp
  have d2: "b64decode ''AQ=='' = Some [CHR 0x01]" by code_simp
  have d3: "b64decode ''eHl6'' = Some ''xyz''" by code_simp
  show ?thesis
    using structured_parse_abandoned [OF m1] structured_parse_abandoned [OF m2] d1 d2 d3 m1 m2
    by simp
qed

subsection \<open>Encoding: \<^verbatim>\<open>xid_get_tid\<close>\<close>

text \<open>
  C4, the claim as stated fails for an unparsed Xid whose \<open>gtrid\<close> has a NUL byte (the
  Xid that \<^verbatim>\<open>xid_from_string\<close> builds from such a string): the result of
  \<^verbatim>\<open>xid_get_tid\<close> is a C string and ends before the NUL byte.
\<close>

theorem get_tid_nul_counterexample:
  "xid_from_string (PyStr [CHR ''a'', CHR 0x00, CHR ''b'']) =
     Inr \<lparr>format_id = PyNone, gtrid = PyStr [CHR ''a'', CHR 0x00, CHR ''b''], bqual = PyNone,
          prepared = PyNone, owner = PyNone, database = PyNone\<rparr> \<and>
   xid_get_tid \<lparr>format_id = PyNone, gtrid = PyStr [CHR ''a'', CHR 0x00, CHR ''b''],
          bqual = PyNone, prepared = PyNone, owner = PyNone, database = PyNone\<rparr> = Tid ''a''"
  by code_simp

text \<open>
  C4, amended. For an Xid whose \<open>format_id\<close> is \<^verbatim>\<open>None\<close> and whose \<open>gtrid\<close> is a
  string, \<^verbatim>\<open>xid_get_tid\<close> returns \<open>gtrid\<close> up to its first NUL byte, that is \<open>gtrid\<close>
  unchanged when it has no NUL byte. For an Xid whose \<open>format_id\<close> is an integer and
  whose \<open>gtrid\<close> and \<open>bqual\<close> are strings, it returns the decimal \<open>format_id\<close>, the
  padded base64 encoding of \<open>gtrid\<close> and the padded base64 encoding of \<open>bqual\<close>,
  joined by single underscores; for \<open>(1, "abc", "xyz")\<close> this is \<^verbatim>\<open>1_YWJj_eHl6\<close>.
\<close>

theorem xid_get_tid_value:
  "(format_id x = PyNone \<and> gtrid x = PyStr g \<longrightarrow>
      xid_get_tid x = Tid (takeWhile (\<lambda>c. c \<noteq> CHR 0x00) g)) \<and>
   (format_id x = PyNone \<and> gtrid x = PyStr g \<and> CHR 0x00 \<notin> set g \<longrightarrow>
      xid_get_tid x = Tid g) \<and>
   (format_id x = PyInt n \<and> gtrid x = PyStr g \<and> bqual x = PyStr b \<longrightarrow>
      xid_get_tid x = Tid (format_d n @ ''_'' @ b64encode g @ ''_'' @ b64encode b))"
  using xid_get_tid_structured [of x n g b] xid_get_tid_unparsed [of x g] c_string_id [of g]
  by (auto simp: c_string_def)

theorem xid_get_tid_value_witness:
  "xid_get_tid \<lparr>format_id = PyNone, gtrid = PyStr ''some_random_prepared_name'',
       bqual = PyNone, prepared = PyNone, owner = PyNone, database = PyNone\<rparr>
     = Tid ''some_random_prepared_name'' \<and>
   xid_get_tid \<lparr>format_id = PyInt 1, gtrid = PyStr ''abc'', bqual = PyStr ''xyz'',
       prepared = PyNone, owner = PyNone, database = PyNone\<rparr> = Tid ''1_YWJj_eHl6''"
proof -
  have e: "format_d 1 @ ''_'' @ b64encode ''abc'' @ ''_'' @ b64encode ''xyz'' = ''1_YWJj_eHl6''"
    by code_simp
  show ?thesis
    using xid_get_tid_value [of "\<lparr>format_id = PyNone, gtrid = PyStr ''some_random_prepared_name'',
       bqual = PyNone, prepared = PyNone, owner = PyNone, database = PyNone\<rparr>"
       "''some_random_prepared_name''" 0 "[]"]
      xid_get_tid_value [of "\<lparr>format_id = PyInt 1, gtrid = PyStr ''abc'', bqual = PyStr ''xyz'',
       prepared = PyNone, owner = PyNone, database = PyNone\<rparr>" "''abc''" 1 "''xyz''"] e
    by simp
qed

subsection \<open>Validation in \<^verbatim>\<open>xid_init\<close>\<close>

text \<open>
  C5, the claim as stated fails at \<open>format_id = 0x80000000\<close>: the conversion of the
  argument to a C \<^verbatim>\<open>int\<close> raises \<^verbatim>\<open>OverflowError\<close> before the range check is reached, so
  the error is not the \<^verbatim>\<open>ValueError\<close> of the range check.
\<close>

theorem format_id_overflow_counterexample:
  "Xid (PyInt 0x80000000) (PyStr ''abc'') (PyStr ''xyz'') = Inl OverflowError"
  by code_simp

text \<open>
  C5, amended. For components without a NUL byte, construction fails with the
  \<^verbatim>\<open>ValueError\<close> of the range check exactly when \<open>format_id\<close> is in \<open>[-2 ^ 31, -1]\<close>,
  and in particular for \<open>-1\<close>. A \<open>format_id\<close> outside the range of a C \<^verbatim>\<open>int\<close>, such as
  \<open>0x80000000\<close>, fails with the \<^verbatim>\<open>OverflowError\<close> of the argument conversion.
\<close>

theorem format_id_check:
  assumes "CHR 0x00 \<notin> set g" "CHR 0x00 \<notin> set b"
  shows "(Xid (PyInt n) (PyStr g) (PyStr b) =
            Inl (ValueError ''format_id must be a non-negative 32-bit integer'')
          \<longleftrightarrow> - (2 ^ 31) \<le> n \<and> n < 0) \<and>
         (n < - (2 ^ 31) \<or> 2 ^ 31 - 1 < n \<longrightarrow>
            Xid (PyInt n) (PyStr g) (PyStr b) = Inl OverflowError)"
proof (cases "- (2 ^ 31) \<le> n \<and> n \<le> 2 ^ 31 - 1")
  case False
  then show ?thesis by (auto simp: Xid_def xid_init_def parse_i_def)
next
  case True
  then have n: "- (2 ^ 31) \<le> n" "n \<le> 2 ^ 31 - 1" by simp_all
  have s: "sint (word_of_int n :: 32 word) = n"
    using n by (simp add: sint_word_of_int_32)
  show ?thesis
    unfolding Xid_def xid_init_def
    using n assms by (simp add: parse_i_in_range [OF n] parse_s_def s)
qed

theorem format_id_check_witness:
  "Xid (PyInt (- 1)) (PyStr ''abc'') (PyStr ''xyz'') =
     Inl (ValueError ''format_id must be a non-negative 32-bit integer'') \<and>
   Xid (PyInt 0x80000000) (PyStr ''abc'') (PyStr ''xyz'') = Inl OverflowError \<and>
   Xid (PyInt 0x7fffffff) (PyStr ''abc'') (PyStr ''xyz'') \<noteq>
     Inl (ValueError ''format_id must be a non-negative 32-bit integer'')"
  using format_id_check [of "''abc''" "''xyz''" "- 1"]
    format_id_check [of "''abc''" "''xyz''" "0x80000000"]
    format_id_check [of "''abc''" "''xyz''" "0x7fffffff"]
  by simp

text \<open>
  The second half of the range check, \<^verbatim>\<open>format_id > 0x7fffffff\<close>, is never true of a
  32-bit \<^verbatim>\<open>int\<close>.
\<close>

lemma format_id_check_dead: "\<not> sint (fid :: 32 word) > 0x7fffffff"
  using sint_lt [of fid] by simp

text \<open>
  C6, the claim as stated fails for a component with a NUL byte: the byte is outside
  \<open>[0x20, 0x7f)\<close>, but the component never reaches the check of its bytes. The argument
  conversion refuses it with \<^verbatim>\<open>TypeError\<close>.
\<close>

theorem component_nul_byte_counterexample:
  "Xid (PyInt 1) (PyStr [CHR ''a'', CHR 0x00, CHR ''b'']) (PyStr ''xyz'') = Inl TypeError"
  by code_simp

text \<open>
  C6, amended. For a \<open>format_id\<close> in \<open>[0, 0x7fffffff]\<close>: a component with a NUL byte is
  refused with \<^verbatim>\<open>TypeError\<close>. For components that have no NUL byte and are shorter
  than \<open>2 ^ 31\<close> bytes, construction runs four checks in this order and fails with the
  error of the first one that does not hold: \<open>gtrid\<close> has at most 64 bytes (else too
  long), every byte of \<open>gtrid\<close> is in \<open>[0x20, 0x7f)\<close> (else not printable), \<open>bqual\<close> has
  at most 64 bytes, every byte of \<open>bqual\<close> is in \<open>[0x20, 0x7f)\<close>. When all four hold,
  construction succeeds with the triple as given.
\<close>

theorem component_checks_in_order:
  assumes "0 \<le> n" "n \<le> 0x7fffffff"
  shows "(CHR 0x00 \<in> set g \<or> CHR 0x00 \<in> set b \<longrightarrow>
            Xid (PyInt n) (PyStr g) (PyStr b) = Inl TypeError) \<and>
         (CHR 0x00 \<notin> set g \<and> CHR 0x00 \<notin> set b \<and> length g < 2 ^ 31 \<and> length b < 2 ^ 31 \<longrightarrow>
            Xid (PyInt n) (PyStr g) (PyStr b) =
              (if 64 < length g
               then Inl (ValueError ''gtrid must be a string no longer than 64 characters'')
               else if \<exists>c\<in>set g. (of_char c :: nat) < 0x20 \<or> 0x7f \<le> (of_char c :: nat)
               then Inl (ValueError ''gtrid must contain only printable characters.'')
               else if 64 < length b
               then Inl (ValueError ''bqual must be a string no longer than 64 characters'')
               else if \<exists>c\<in>set b. (of_char c :: nat) < 0x20 \<or> 0x7f \<le> (of_char c :: nat)
               then Inl (ValueError ''bqual must contain only printable characters.'')
               else Inr \<lparr>format_id = PyInt n, gtrid = PyStr g, bqual = PyStr b,
                          prepared = PyNone, owner = PyNone, database = PyNone\<rparr>))"
proof -
  have n: "- (2 ^ 31) \<le> n" "n \<le> 2 ^ 31 - 1" using assms by simp_all
  have nul: "Xid (PyInt n) (PyStr g) (PyStr b) = Inl TypeError"
    if "CHR 0x00 \<in> set g \<or> CHR 0x00 \<in> set b"
    using that by (auto simp: Xid_def xid_init_def parse_i_in_range [OF n] parse_s_def)
  have chk: "Xid (PyInt n) (PyStr g) (PyStr b) =
              (if 64 < length g
               then Inl (ValueError ''gtrid must be a string no longer than 64 characters'')
               else if \<exists>c\<in>set g. (of_char c :: nat) < 0x20 \<or> 0x7f \<le> (of_char c :: nat)
               then Inl (ValueError ''gtrid must contain only printable characters.'')
               else if 64 < length b
               then Inl (ValueError ''bqual must be a string no longer than 64 characters'')
               else if \<exists>c\<in>set b. (of_char c :: nat) < 0x20 \<or> 0x7f \<le> (of_char c :: nat)
               then Inl (ValueError ''bqual must contain only printable characters.'')
               else Inr \<lparr>format_id = PyInt n, gtrid = PyStr g, bqual = PyStr b,
                          prepared = PyNone, owner = PyNone, database = PyNone\<rparr>)"
    if "CHR 0x00 \<notin> set g \<and> CHR 0x00 \<notin> set b \<and> length g < 2 ^ 31 \<and> length b < 2 ^ 31"
    using that Xid_checks [OF n, of g b] assms(1) by (simp add: not_printable_def)
  show ?thesis using nul chk by blast
qed

theorem component_checks_in_order_witness:
  "Xid (PyInt 1) (PyStr (replicate 65 (CHR ''a''))) (PyStr []) =
     Inl (ValueError ''gtrid must be a string no longer than 64 characters'') \<and>
   Xid (PyInt 1) (PyStr [CHR 0x01]) (PyStr (replicate 65 (CHR ''a''))) =
     Inl (ValueError ''gtrid must contain only printable characters.'') \<and>
   Xid (PyInt 1) (PyStr ''abc'') (PyStr [CHR 0x7f]) =
     Inl (ValueError ''bqual must contain only printable characters.'') \<and>
   Xid (PyInt 1) (PyStr ''abc'') (PyStr [CHR 0x00]) = Inl TypeError \<and>
   Xid (PyInt 1) (PyStr ''abc'') (PyStr ''xyz'') =
     Inr \<lparr>format_id = PyInt 1, gtrid = PyStr ''abc'', bqual = PyStr ''xyz'',
          prepared = PyNone, owner = PyNone, database = PyNone\<rparr>"
  using component_checks_in_order [of 1 "replicate 65 (CHR ''a'')" "[]"]
    component_checks_in_order [of 1 "[CHR 0x01]" "replicate 65 (CHR ''a'')"]
    component_checks_in_order [of 1 "''abc''" "[CHR 0x7f]"]
    component_checks_in_order [of 1 "''abc''" "[CHR 0x00]"]
    component_checks_in_order [of 1 "''abc''" "''xyz''"]
  by simp

subsection \<open>Recovery\<close>

lemma recover_row_full:
  assumes "4 \<le> length rec"
  shows "recover_row i rec =
     ([Set_member i M_prepared, Set_member i M_owner, Set_member i M_database],
      Inr ((projr (xid_from_string (rec ! 0)))
             \<lparr>prepared := rec ! 1, owner := rec ! 2, database := rec ! 3\<rparr>))"
proof -
  obtain y where y: "xid_from_string (rec ! 0) = Inr y"
    using xid_from_string_total by blast
  have "rec \<noteq> []" "Suc 0 < length rec" "2 < length rec" "3 < length rec"
    using assms by auto
  then show ?thesis
    by (simp add: recover_row_def assign_member_def Let_def sequence_getitem_def y)
qed

lemma recover_row_events:
  "fst (recover_row i rec) \<in>
     {[], [Set_member i M_prepared], [Set_member i M_prepared, Set_member i M_owner],
      [Set_member i M_prepared, Set_member i M_owner, Set_member i M_database]}"
  by (simp add: recover_row_def assign_member_def Let_def split: sum.splits)

lemma recover_loop_all_rows:
  assumes "\<forall>rec\<in>set recs. 4 \<le> length rec" "length xids = length recs" "i \<le> length recs"
  shows "recover_loop recs i xids tr =
     (tr @ concat (map (\<lambda>j. [Set_member j M_prepared, Set_member j M_owner,
                              Set_member j M_database]) [i..<length recs]),
      Inr (take i xids @
           map (\<lambda>rec. Some ((projr (xid_from_string (rec ! 0)))
                  \<lparr>prepared := rec ! 1, owner := rec ! 2, database := rec ! 3\<rparr>))
               (drop i recs)))"
  using assms
proof (induction recs i xids tr rule: recover_loop.induct)
  case (1 recs i xids tr)
  show ?case
  proof (cases "i < length recs")
    case False
    with 1(4) have "i = length recs" by simp
    then show ?thesis using 1(3) by (subst recover_loop.simps) simp
  next
    case True
    let ?xid = "(projr (xid_from_string (recs ! i ! 0)))
                  \<lparr>prepared := recs ! i ! 1, owner := recs ! i ! 2, database := recs ! i ! 3\<rparr>"
    let ?ev = "[Set_member i M_prepared, Set_member i M_owner, Set_member i M_database]"
    have row: "recover_row i (recs ! i) = (?ev, Inr ?xid)"
      using 1(2) True by (intro recover_row_full) simp
    have IH: "recover_loop recs (Suc i) (xids[i := Some ?xid]) (tr @ ?ev) =
       ((tr @ ?ev) @ concat (map (\<lambda>j. [Set_member j M_prepared, Set_member j M_owner,
                              Set_member j M_database]) [Suc i..<length recs]),
        Inr (take (Suc i) (xids[i := Some ?xid]) @
           map (\<lambda>rec. Some ((projr (xid_from_string (rec ! 0)))
                  \<lparr>prepared := rec ! 1, owner := rec ! 2, database := rec ! 3\<rparr>))
               (drop (Suc i) recs)))"
      using 1(1) [OF True row [symmetric] refl 1(2)] 1(3) True by simp
    have t: "take (Suc i) (xids[i := Some ?xid]) = take i xids @ [Some ?xid]"
      using True 1(3) by (simp add: take_Suc_conv_app_nth)
    have d: "drop i recs = recs ! i # drop (Suc i) recs"
      using True by (simp add: Cons_nth_drop_Suc)
    have u: "[i..<length recs] = i # [Suc i..<length recs]"
      using True by (simp add: upt_conv_Cons)
    have step: "recover_loop recs i xids tr =
        recover_loop recs (Suc i) (xids[i := Some ?xid]) (tr @ ?ev)"
      by (subst recover_loop.simps) (simp add: True row)
    show ?thesis
      unfolding step IH t d u by simp
  qed
qed

lemma recover_loop_events:
  "\<exists>evs. fst (recover_loop recs i xids tr) = tr @ evs \<and> distinct evs \<and>
     (\<forall>e\<in>set evs. \<exists>j m. e = Set_member j m \<and> i \<le> j \<and> j < length recs \<and>
         m \<in> {M_prepared, M_owner, M_database})"
proof (induction recs i xids tr rule: recover_loop.induct)
  case (1 recs i xids tr)
  show ?case
  proof (cases "i < length recs")
    case False
    then show ?thesis by (subst recover_loop.simps) simp
  next
    case True
    obtain ev r where row: "recover_row i (recs ! i) = (ev, r)" by (cases "recover_row i (recs ! i)")
    have ev: "ev \<in> {[], [Set_member i M_prepared], [Set_member i M_prepared, Set_member i M_owner],
        [Set_member i M_prepared, Set_member i M_owner, Set_member i M_database]}"
      using recover_row_events [of i "recs ! i"] row by simp
    then have dev: "distinct ev"
      and sev: "\<forall>e\<in>set ev. \<exists>m. e = Set_member i m \<and> m \<in> {M_prepared, M_owner, M_database}"
      by auto
    show ?thesis
    proof (cases r)
      case (Inl e)
      have "fst (recover_loop recs i xids tr) = tr @ ev"
        by (subst recover_loop.simps) (simp add: True row Inl)
      then show ?thesis using dev sev True by auto
    next
      case (Inr xid)
      have step: "recover_loop recs i xids tr =
          recover_loop recs (Suc i) (xids[i := Some xid]) (tr @ ev)"
        by (subst recover_loop.simps) (simp add: True row Inr)
      from 1 [OF True row [symmetric] Inr]
      obtain evs where evs: "fst (recover_loop recs (Suc i) (xids[i := Some xid]) (tr @ ev))
            = (tr @ ev) @ evs" "distinct evs"
          "\<forall>e\<in>set evs. \<exists>j m. e = Set_member j m \<and> Suc i \<le> j \<and> j < length recs \<and>
             m \<in> {M_prepared, M_owner, M_database}"
        by auto
      have disj: "set ev \<inter> set evs = {}"
        using sev evs(3) by fastforce
      have "fst (recover_loop recs i xids tr) = tr @ (ev @ evs)"
        using step evs(1) by simp
      moreover have "distinct (ev @ evs)" using dev evs(2) disj by simp
      moreover have "\<forall>e\<in>set (ev @ evs). \<exists>j m. e = Set_member j m \<and> i \<le> j \<and> j < length recs \<and>
             m \<in> {M_prepared, M_owner, M_database}"
        using sev evs(3) True by fastforce
      ultimately show ?thesis by blast
    qed
  qed
qed

lemma queries_no_execute:
  "\<forall>e\<in>set evs. \<exists>j m. e = Set_member j m \<Longrightarrow> queries (tr @ evs) = queries tr"
  by (induction evs arbitrary: tr rule: rev_induct)
     (auto simp: queries_def map_filter_def simp flip: append_assoc)

lemma xid_recover_trace:
  "\<exists>evs. (\<forall>e\<in>set evs. \<exists>j m. e = Set_member j m \<and> m \<in> {M_prepared, M_owner, M_database}) \<and>
     distinct evs \<and>
     fst (xid_recover conn) =
       (if conn_cursor conn \<noteq> None then [Call_cursor]
        else if curs_execute conn recover_query \<noteq> None
        then [Call_cursor, Call_execute recover_query]
        else if \<exists>e. curs_fetchall conn = Inl e
        then [Call_cursor, Call_execute recover_query, Call_fetchall]
        else [Call_cursor, Call_execute recover_query, Call_fetchall, Call_close] @ evs) \<and>
     (conn_cursor conn \<noteq> None \<or> curs_execute conn recover_query \<noteq> None \<or>
      (\<exists>e. curs_fetchall conn = Inl e) \<or> curs_close conn \<noteq> None \<longrightarrow> evs = [])"
proof (cases "conn_cursor conn = None \<and> curs_execute conn recover_query = None \<and>
    (\<exists>recs. curs_fetchall conn = Inr recs) \<and> curs_close conn = None")
  case True
  then obtain recs where r: "curs_fetchall conn = Inr recs" by blast
  let ?tr = "[Call_cursor, Call_execute recover_query, Call_fetchall, Call_close]"
  have x: "xid_recover conn = recover_loop recs 0 (replicate (length recs) None) ?tr"
    using True r by (simp add: xid_recover_def)
  from recover_loop_events [of recs 0 "replicate (length recs) None" ?tr]
  obtain evs where "fst (recover_loop recs 0 (replicate (length recs) None) ?tr) = ?tr @ evs"
    "distinct evs"
    "\<forall>e\<in>set evs. \<exists>j m. e = Set_member j m \<and> 0 \<le> j \<and> j < length recs \<and>
         m \<in> {M_prepared, M_owner, M_database}"
    by blast
  then show ?thesis using True r x by (intro exI [of _ evs]) auto
next
  case False
  then show ?thesis
    by (intro exI [of _ "[]"]) (auto simp: xid_recover_def split: option.splits sum.splits)
qed

lemma xid_recover_all_rows:
  assumes "conn_cursor conn = None" "curs_execute conn recover_query = None"
    "curs_fetchall conn = Inr recs" "curs_close conn = None" "\<forall>rec\<in>set recs. 4 \<le> length rec"
  shows "snd (xid_recover conn) =
     Inr (map (\<lambda>rec. Some ((projr (xid_from_string (rec ! 0)))
                  \<lparr>prepared := rec ! 1, owner := rec ! 2, database := rec ! 3\<rparr>)) recs)"
  using recover_loop_all_rows [OF assms(5), of "replicate (length recs) None" 0] assms(1-4)
  by (simp add: xid_recover_def)

text \<open>
  C7. \<^verbatim>\<open>xid_recover\<close> executes exactly one statement on the cursor it obtained, the
  query \<^verbatim>\<open>SELECT gid, prepared, owner, database FROM pg_prepared_xacts;\<close>. When the
  cursor, the query, the fetch and the close succeed and every row has its four
  columns, it returns one Xid for each row, in the order of the rows: the Xid that
  \<^verbatim>\<open>xid_from_string\<close> decodes from column 0, with the columns 1, 2 and 3 stored as
  \<open>prepared\<close>, \<open>owner\<close> and \<open>database\<close>.
\<close>

theorem recover_decodes_rows_in_order:
  "recover_query = ''SELECT gid, prepared, owner, database FROM pg_prepared_xacts;'' \<and>
   queries (fst (xid_recover conn)) = (if conn_cursor conn = None then [recover_query] else []) \<and>
   (conn_cursor conn = None \<and> curs_execute conn recover_query = None \<and>
    curs_fetchall conn = Inr recs \<and> curs_close conn = None \<and>
    (\<forall>rec\<in>set recs. 4 \<le> length rec) \<longrightarrow>
      (\<exists>xids. snd (xid_recover conn) = Inr xids \<and>
         list_all2 (\<lambda>rec x. \<exists>y. xid_from_string (rec ! 0) = Inr y \<and>
              x = Some (y\<lparr>prepared := rec ! 1, owner := rec ! 2, database := rec ! 3\<rparr>))
           recs xids))"
proof (intro conjI impI)
  show "recover_query = ''SELECT gid, prepared, owner, database FROM pg_prepared_xacts;''"
    by (simp add: recover_query_def)
next
  obtain evs where evs: "\<forall>e\<in>set evs. \<exists>j m. e = Set_member j m \<and> m \<in> {M_prepared, M_owner, M_database}"
    and tr: "fst (xid_recover conn) =
       (if conn_cursor conn \<noteq> None then [Call_cursor]
        else if curs_execute conn recover_query \<noteq> None
        then [Call_cursor, Call_execute recover_query]
        else if \<exists>e. curs_fetchall conn = Inl e
        then [Call_cursor, Call_execute recover_query, Call_fetchall]
        else [Call_cursor, Call_execute recover_query, Call_fetchall, Call_close] @ evs)"
    using xid_recover_trace [of conn] by blast
  have q: "queries ([Call_cursor, Call_execute recover_query, Call_fetchall, Call_close] @ evs)
      = queries [Call_cursor, Call_execute recover_query, Call_fetchall, Call_close]"
    using evs by (intro queries_no_execute) blast
  show "queries (fst (xid_recover conn)) = (if conn_cursor conn = None then [recover_query] else [])"
    unfolding tr using q by (simp add: queries_def map_filter_def)
next
  assume a: "conn_cursor conn = None \<and> curs_execute conn recover_query = None \<and>
    curs_fetchall conn = Inr recs \<and> curs_close conn = None \<and>
    (\<forall>rec\<in>set recs. 4 \<le> length rec)"
  let ?f = "\<lambda>rec. Some ((projr (xid_from_string (rec ! 0)))
                  \<lparr>prepared := rec ! 1, owner := rec ! 2, database := rec ! 3\<rparr>)"
  have r: "snd (xid_recover conn) = Inr (map ?f recs)"
    using a by (intro xid_recover_all_rows) simp_all
  have "list_all2 (\<lambda>rec x. \<exists>y. xid_from_string (rec ! 0) = Inr y \<and>
              x = Some (y\<lparr>prepared := rec ! 1, owner := rec ! 2, database := rec ! 3\<rparr>))
           recs (map ?f recs)"
    unfolding list_all2_map2
  proof (rule list_all2_refl)
    fix rec :: "pyobj list"
    obtain y where "xid_from_string (rec ! 0) = Inr y" using xid_from_string_total by blast
    then show "\<exists>y. xid_from_string (rec ! 0) = Inr y \<and>
        ?f rec = Some (y\<lparr>prepared := rec ! 1, owner := rec ! 2, database := rec ! 3\<rparr>)"
      by simp
  qed
  with r show "\<exists>xids. snd (xid_recover conn) = Inr xids \<and>
         list_all2 (\<lambda>rec x. \<exists>y. xid_from_string (rec ! 0) = Inr y \<and>
              x = Some (y\<lparr>prepared := rec ! 1, owner := rec ! 2, database := rec ! 3\<rparr>))
           recs xids"
    by blast
qed

theorem recover_decodes_rows_in_order_witness:
  "snd (xid_recover \<lparr>conn_cursor = None, curs_execute = (\<lambda>q. None),
        curs_fetchall = Inr [[PyStr ''1_YWJj_eHl6'', PyStr ''2024-01-01'', PyStr ''alice'',
                              PyStr ''db1''],
                             [PyStr ''foreign'', PyStr ''2024-01-02'', PyStr ''bob'',
                              PyStr ''db2'']],
        curs_close = None\<rparr>) =
     Inr [Some \<lparr>format_id = PyInt 1, gtrid = PyStr ''abc'', bqual = PyStr ''xyz'',
                prepared = PyStr ''2024-01-01'', owner = PyStr ''alice'',
                database = PyStr ''db1''\<rparr>,
          Some \<lparr>format_id = PyNone, gtrid = PyStr ''foreign'', bqual = PyNone,
                prepared = PyStr ''2024-01-02'', owner = PyStr ''bob'',
                database = PyStr ''db2''\<rparr>]"
proof -
  let ?recs = "[[PyStr ''1_YWJj_eHl6'', PyStr ''2024-01-01'', PyStr ''alice'', PyStr ''db1''],
               [PyStr ''foreign'', PyStr ''2024-01-02'', PyStr ''bob'', PyStr ''db2'']]"
  let ?conn = "\<lparr>conn_cursor = None, curs_execute = (\<lambda>q. None),
        curs_fetchall = Inr ?recs, curs_close = None\<rparr>"
  have d1: "xid_from_string (PyStr ''1_YWJj_eHl6'') =
      Inr \<lparr>format_id = PyInt 1, gtrid = PyStr ''abc'', bqual = PyStr ''xyz'',
           prepared = PyNone, owner = PyNone, database = PyNone\<rparr>"
    by code_simp
  have d2: "xid_from_string (PyStr ''foreign'') =
      Inr \<lparr>format_id = PyNone, gtrid = PyStr ''foreign'', bqual = PyNone,
           prepared = PyNone, owner = PyNone, database = PyNone\<rparr>"
    by code_simp
  from recover_decodes_rows_in_order [of ?conn ?recs]
  obtain xids where x: "snd (xid_recover ?conn) = Inr xids"
    and l: "list_all2 (\<lambda>rec x. \<exists>y. xid_from_string (rec ! 0) = Inr y \<and>
              x = Some (y\<lparr>prepared := rec ! 1, owner := rec ! 2, database := rec ! 3\<rparr>))
           ?recs xids"
    by auto
  from l show ?thesis
    unfolding x by (auto simp: list_all2_Cons1 d1 d2)
qed

text \<open>
  C8, the claim as stated fails: when \<^verbatim>\<open>execute\<close> raises, or when \<^verbatim>\<open>fetchall\<close> raises,
  \<^verbatim>\<open>xid_recover\<close> goes to its exit label and returns without a call of \<^verbatim>\<open>close\<close>.
\<close>

theorem close_not_on_every_path_counterexample:
  "xid_recover \<lparr>conn_cursor = None, curs_execute = (\<lambda>q. Some (Raised ''query failed'')),
       curs_fetchall = Inr [], curs_close = None\<rparr> =
     ([Call_cursor, Call_execute recover_query], Inl (Raised ''query failed'')) \<and>
   xid_recover \<lparr>conn_cursor = None, curs_execute = (\<lambda>q. None),
       curs_fetchall = Inl (Raised ''fetch failed''), curs_close = None\<rparr> =
     ([Call_cursor, Call_execute recover_query, Call_fetchall], Inl (Raised ''fetch failed''))"
  by (simp add: xid_recover_def)

text \<open>
  C8, amended. \<^verbatim>\<open>close\<close> is called exactly when the cursor was obtained and
  \<^verbatim>\<open>execute\<close> and \<^verbatim>\<open>fetchall\<close> returned: then it is called once, straight after
  \<^verbatim>\<open>fetchall\<close> and before any row is looked at, so also on the paths that fail later on
  a malformed row. When the cursor cannot be obtained, or \<^verbatim>\<open>execute\<close> or \<^verbatim>\<open>fetchall\<close>
  raises, \<^verbatim>\<open>close\<close> is not called.
\<close>

theorem close_called_after_fetch:
  "(conn_cursor conn = None \<and> curs_execute conn recover_query = None \<and>
    (\<exists>recs. curs_fetchall conn = Inr recs) \<longrightarrow>
      (\<exists>evs. fst (xid_recover conn) =
          [Call_cursor, Call_execute recover_query, Call_fetchall, Call_close] @ evs \<and>
          Call_close \<notin> set evs)) \<and>
   (\<not> (conn_cursor conn = None \<and> curs_execute conn recover_query = None \<and>
       (\<exists>recs. curs_fetchall conn = Inr recs)) \<longrightarrow>
      Call_close \<notin> set (fst (xid_recover conn)))"
proof -
  obtain evs where evs: "\<forall>e\<in>set evs. \<exists>j m. e = Set_member j m \<and> m \<in> {M_prepared, M_owner, M_database}"
    and tr: "fst (xid_recover conn) =
       (if conn_cursor conn \<noteq> None then [Call_cursor]
        else if curs_execute conn recover_query \<noteq> None
        then [Call_cursor, Call_execute recover_query]
        else if \<exists>e. curs_fetchall conn = Inl e
        then [Call_cursor, Call_execute recover_query, Call_fetchall]
        else [Call_cursor, Call_execute recover_query, Call_fetchall, Call_close] @ evs)"
    using xid_recover_trace [of conn] by blast
  have n: "Call_close \<notin> set evs" using evs by auto
  show ?thesis
    unfolding tr using n by (cases "curs_fetchall conn") auto
qed

theorem close_called_after_fetch_witness:
  "fst (xid_recover \<lparr>conn_cursor = None, curs_execute = (\<lambda>q. None),
        curs_fetchall = Inr [[PyStr ''foreign'']], curs_close = None\<rparr>) =
     [Call_cursor, Call_execute recover_query, Call_fetchall, Call_close] \<and>
   snd (xid_recover \<lparr>conn_cursor = None, curs_execute = (\<lambda>q. None),
        curs_fetchall = Inr [[PyStr ''foreign'']], curs_close = None\<rparr>) =
     Inl (IndexError ''tuple index out of range'') \<and>
   Call_close \<notin> set (fst (xid_recover \<lparr>conn_cursor = Some (Raised ''closed''),
        curs_execute = (\<lambda>q. None), curs_fetchall = Inr [], curs_close = None\<rparr>))"
proof -
  let ?c = "\<lparr>conn_cursor = None, curs_execute = (\<lambda>q. None),
        curs_fetchall = Inr [[PyStr ''foreign'']], curs_close = None\<rparr>"
  have x: "xid_recover ?c =
      ([Call_cursor, Call_execute recover_query, Call_fetchall, Call_close],
       Inl (IndexError ''tuple index out of range''))"
    by (simp add: xid_recover_def recover_loop.simps recover_row_def assign_member_def Let_def sequence_getitem_def
        xid_from_string_def xid_unparsed_from_string_eq split: sum.splits)
  show ?thesis
    using close_called_after_fetch [of ?c]
      close_called_after_fetch [of "\<lparr>conn_cursor = Some (Raised ''closed''),
        curs_execute = (\<lambda>q. None), curs_fetchall = Inr [], curs_close = None\<rparr>"] x
    by simp
qed

subsection \<open>Who writes the fields\<close>

lemma distinct_count_list_le: "distinct xs \<Longrightarrow> count_list xs x \<le> 1"
  by (induction xs) auto

lemma xid_members_all_RO: "\<forall>(name, m, flag)\<in>set xid_members. flag = RO"
  by (simp add: xid_members_def)

lemma xid_setattr_refused: "\<exists>e. xid_setattr self name v = Inl e"
proof (cases "map_of xid_members name")
  case None
  then show ?thesis by (simp add: xid_setattr_def)
next
  case (Some p)
  then have "(name, p) \<in> set xid_members" by (rule map_of_SomeD)
  then have "snd p = RO" using xid_members_all_RO by auto
  then show ?thesis using Some by (cases p) (simp add: xid_setattr_def)
qed

lemma Xid_metadata:
  assumes "Xid a1 a2 a3 = Inr x"
  shows "prepared x = PyNone \<and> owner x = PyNone \<and> database x = PyNone"
  using assms
  by (auto simp: Xid_def xid_init_def xid_new_def split: sum.splits if_splits)

lemma xid_from_string_metadata:
  assumes "xid_from_string str = Inr x"
  shows "prepared x = PyNone \<and> owner x = PyNone \<and> database x = PyNone"
proof (cases "xid_parse_string str")
  case (Inl e)
  then show ?thesis using assms xid_from_string_fallback [OF Inl] by auto
next
  case (Inr y)
  then have "y = x" using assms by (simp add: xid_from_string_def)
  with Inr show ?thesis
    by (auto simp: xid_parse_string_def dest: Xid_metadata
        split: pyobj.splits option.splits sum.splits prod.splits)
qed

lemma recover_row_Inr:
  assumes "recover_row i rec = (ev, Inr xid)"
  shows "4 \<le> length rec"
  using assms
  by (auto simp: recover_row_def assign_member_def Let_def sequence_getitem_def
      split: sum.splits if_splits)

lemma recover_loop_Inr_rows:
  "snd (recover_loop recs i xids tr) = Inr xs \<Longrightarrow> i \<le> j \<Longrightarrow> j < length recs \<Longrightarrow>
   4 \<le> length (recs ! j)"
proof (induction recs i xids tr rule: recover_loop.induct)
  case (1 recs i xids tr)
  from 1(3,4) have lt: "i < length recs" by simp
  obtain ev r where row: "recover_row i (recs ! i) = (ev, r)"
    by (cases "recover_row i (recs ! i)")
  show ?case
  proof (cases r)
    case (Inl e)
    have "snd (recover_loop recs i xids tr) = Inl e"
      by (subst recover_loop.simps) (simp add: lt row Inl)
    with 1(2) show ?thesis by simp
  next
    case (Inr xid)
    have step: "recover_loop recs i xids tr =
        recover_loop recs (Suc i) (xids[i := Some xid]) (tr @ ev)"
      by (subst recover_loop.simps) (simp add: lt row Inr)
    show ?thesis
    proof (cases "j = i")
      case True
      then show ?thesis using recover_row_Inr row Inr by blast
    next
      case False
      with 1(3) have "Suc i \<le> j" by simp
      from 1(1) [OF lt row [symmetric] Inr _ this 1(4)] 1(2) step show ?thesis by simp
    qed
  qed
qed

lemma xid_recover_Inr:
  assumes "snd (xid_recover conn) = Inr xids"
  shows "\<exists>recs. conn_cursor conn = None \<and> curs_execute conn recover_query = None \<and>
     curs_fetchall conn = Inr recs \<and> curs_close conn = None \<and> (\<forall>rec\<in>set recs. 4 \<le> length rec)"
proof -
  from assms obtain recs where c: "conn_cursor conn = None" "curs_execute conn recover_query = None"
    "curs_fetchall conn = Inr recs" "curs_close conn = None"
    by (auto simp: xid_recover_def split: option.splits sum.splits)
  let ?tr = "[Call_cursor, Call_execute recover_query, Call_fetchall, Call_close]"
  have "snd (recover_loop recs 0 (replicate (length recs) None) ?tr) = Inr xids"
    using assms c by (simp add: xid_recover_def)
  then have "4 \<le> length (recs ! j)" if "j < length recs" for j
    using recover_loop_Inr_rows that by blast
  then have "\<forall>rec\<in>set recs. 4 \<le> length rec"
    by (auto simp: in_set_conv_nth)
  with c show ?thesis by blast
qed

lemma xid_init_metadata:
  assumes "xid_init self a1 a2 a3 = Inr x"
  shows "prepared x = prepared self \<and> owner x = owner self \<and> database x = database self"
  using assms by (auto simp: xid_init_def split: sum.splits if_splits)

lemma PySequence_SetItem_xid: "PySequence_SetItem xid_sequence self i v = Inl TypeError"
  by (simp add: PySequence_SetItem_def xid_sequence_def)

text \<open>
  C9, the claim as stated fails: \<^verbatim>\<open>xid_init\<close> is the initializer of the type, and run
  again on an Xid that was constructed, \<^verbatim>\<open>x = Xid(1, 'abc', 'xyz')\<close> and then
  \<^verbatim>\<open>x.__init__(2, 'q', 'r')\<close>, it stores the new \<open>format_id\<close>, \<open>gtrid\<close> and \<open>bqual\<close> in it.
\<close>

theorem init_again_counterexample:
  "Xid (PyInt 1) (PyStr ''abc'') (PyStr ''xyz'') =
     Inr \<lparr>format_id = PyInt 1, gtrid = PyStr ''abc'', bqual = PyStr ''xyz'',
          prepared = PyNone, owner = PyNone, database = PyNone\<rparr> \<and>
   xid_init \<lparr>format_id = PyInt 1, gtrid = PyStr ''abc'', bqual = PyStr ''xyz'',
          prepared = PyNone, owner = PyNone, database = PyNone\<rparr>
       (PyInt 2) (PyStr ''q'') (PyStr ''r'') =
     Inr \<lparr>format_id = PyInt 2, gtrid = PyStr ''q'', bqual = PyStr ''r'',
          prepared = PyNone, owner = PyNone, database = PyNone\<rparr>"
  by code_simp

text \<open>
  C9, amended. Of the operations on an Xid that exists, only the initializer changes
  \<open>format_id\<close>, \<open>gtrid\<close> or \<open>bqual\<close>: run again with arguments it accepts, it replaces
  the three and leaves \<open>prepared\<close>, \<open>owner\<close> and \<open>database\<close> as they are. An assignment to
  an attribute is refused, whatever the name: the six members are read-only and there
  is no other attribute. An assignment to an item is refused: the type has no slot for
  it. \<^verbatim>\<open>xid_ensure\<close> hands an Xid back as it is. \<^verbatim>\<open>xid_recover\<close> assigns only the members
  \<open>prepared\<close>, \<open>owner\<close> and \<open>database\<close> of the Xid objects it builds, each of them at most
  once for each object and within the run that returns the object; every Xid it
  returns has \<open>format_id\<close>, \<open>gtrid\<close> and \<open>bqual\<close> as \<^verbatim>\<open>xid_from_string\<close> decoded them from
  the first column of its row, and the other three columns as \<open>prepared\<close>, \<open>owner\<close> and
  \<open>database\<close>. Nothing else writes these three: an Xid that the constructor or
  \<^verbatim>\<open>xid_from_string\<close> returns has them at \<^verbatim>\<open>None\<close>.
\<close>

theorem fields_after_construction:
  "(\<forall>name v. \<exists>e. xid_setattr self name v = Inl e) \<and>
   (\<forall>i v. \<exists>e. PySequence_SetItem xid_sequence self i v = Inl e) \<and>
   xid_ensure (An_xid self) = Inr self \<and>
   (\<forall>x. xid_init self a1 a2 a3 = Inr x \<longrightarrow>
        prepared x = prepared self \<and> owner x = owner self \<and> database x = database self) \<and>
   (\<forall>j m. Set_member j m \<in> set (fst (xid_recover conn)) \<longrightarrow>
        m \<in> {M_prepared, M_owner, M_database}) \<and>
   (\<forall>j m. count_list (fst (xid_recover conn)) (Set_member j m) \<le> 1) \<and>
   (\<forall>xids. snd (xid_recover conn) = Inr xids \<longrightarrow>
      (\<exists>recs. curs_fetchall conn = Inr recs \<and>
         list_all2 (\<lambda>rec x. \<exists>y z. xid_from_string (rec ! 0) = Inr y \<and> x = Some z \<and>
              format_id z = format_id y \<and> gtrid z = gtrid y \<and> bqual z = bqual y \<and>
              prepared z = rec ! 1 \<and> owner z = rec ! 2 \<and> database z = rec ! 3)
           recs xids)) \<and>
   (\<forall>x. Xid b1 b2 b3 = Inr x \<or> xid_from_string str = Inr x \<longrightarrow>
        prepared x = PyNone \<and> owner x = PyNone \<and> database x = PyNone)"
proof -
  obtain evs where evs: "\<forall>e\<in>set evs. \<exists>j m. e = Set_member j m \<and> m \<in> {M_prepared, M_owner, M_database}"
    and d: "distinct evs"
    and tr: "fst (xid_recover conn) =
       (if conn_cursor conn \<noteq> None then [Call_cursor]
        else if curs_execute conn recover_query \<noteq> None
        then [Call_cursor, Call_execute recover_query]
        else if \<exists>e. curs_fetchall conn = Inl e
        then [Call_cursor, Call_execute recover_query, Call_fetchall]
        else [Call_cursor, Call_execute recover_query, Call_fetchall, Call_close] @ evs)"
    using xid_recover_trace [of conn] by blast
  have only: "m \<in> {M_prepared, M_owner, M_database}"
    if "Set_member j m \<in> set (fst (xid_recover conn))" for j m
  proof -
    from that have "Set_member j m \<in> set evs"
      unfolding tr by (auto split: if_splits)
    then show ?thesis using evs by auto
  qed
  have once: "count_list (fst (xid_recover conn)) (Set_member j m) \<le> 1" for j m
  proof -
    have "count_list (fst (xid_recover conn)) (Set_member j m) \<le> count_list evs (Set_member j m)"
      unfolding tr by simp
    also have "\<dots> \<le> 1" using d by (rule distinct_count_list_le)
    finally show ?thesis .
  qed
  have triple: "\<exists>recs. curs_fetchall conn = Inr recs \<and>
         list_all2 (\<lambda>rec x. \<exists>y z. xid_from_string (rec ! 0) = Inr y \<and> x = Some z \<and>
              format_id z = format_id y \<and> gtrid z = gtrid y \<and> bqual z = bqual y \<and>
              prepared z = rec ! 1 \<and> owner z = rec ! 2 \<and> database z = rec ! 3)
           recs xids"
    if r: "snd (xid_recover conn) = Inr xids" for xids
  proof -
    from xid_recover_Inr [OF r] obtain recs where c: "conn_cursor conn = None"
      "curs_execute conn recover_query = None" "curs_fetchall conn = Inr recs"
      "curs_close conn = None" "\<forall>rec\<in>set recs. 4 \<le> length rec"
      by blast
    let ?f = "\<lambda>rec. Some ((projr (xid_from_string (rec ! 0)))
                  \<lparr>prepared := rec ! 1, owner := rec ! 2, database := rec ! 3\<rparr>)"
    have x: "xids = map ?f recs"
      using xid_recover_all_rows [OF c] r by simp
    have "list_all2 (\<lambda>rec x. \<exists>y z. xid_from_string (rec ! 0) = Inr y \<and> x = Some z \<and>
              format_id z = format_id y \<and> gtrid z = gtrid y \<and> bqual z = bqual y \<and>
              prepared z = rec ! 1 \<and> owner z = rec ! 2 \<and> database z = rec ! 3)
           recs (map ?f recs)"
      unfolding list_all2_map2
    proof (rule list_all2_refl)
      fix rec :: "pyobj list"
      obtain y where "xid_from_string (rec ! 0) = Inr y" using xid_from_string_total by blast
      then show "\<exists>y z. xid_from_string (rec ! 0) = Inr y \<and> ?f rec = Some z \<and>
              format_id z = format_id y \<and> gtrid z = gtrid y \<and> bqual z = bqual y \<and>
              prepared z = rec ! 1 \<and> owner z = rec ! 2 \<and> database z = rec ! 3"
        by simp
    qed
    with c(3) x show ?thesis by blast
  qed
  have fresh: "prepared x = PyNone \<and> owner x = PyNone \<and> database x = PyNone"
    if "Xid b1 b2 b3 = Inr x \<or> xid_from_string str = Inr x" for x
    using that Xid_metadata xid_from_string_metadata by blast
  have same: "xid_ensure (An_xid self) = Inr self"
    by (simp add: xid_ensure_def)
  have item: "\<exists>e. PySequence_SetItem xid_sequence self i v = Inl e" for i v
    by (simp add: PySequence_SetItem_xid)
  have init: "prepared x = prepared self \<and> owner x = owner self \<and> database x = database self"
    if "xid_init self a1 a2 a3 = Inr x" for x
    using that by (rule xid_init_metadata)
  show ?thesis
    using xid_setattr_refused item same init only once triple fresh by blast
qed

theorem fields_after_construction_witness:
  "xid_init \<lparr>format_id = PyInt 1, gtrid = PyStr ''abc'', bqual = PyStr ''xyz'',
        prepared = PyStr ''2024-01-02'', owner = PyStr ''bob'', database = PyStr ''db2''\<rparr>
       (PyInt 2) (PyStr ''q'') (PyStr ''r'') =
     Inr \<lparr>format_id = PyInt 2, gtrid = PyStr ''q'', bqual = PyStr ''r'',
        prepared = PyStr ''2024-01-02'', owner = PyStr ''bob'', database = PyStr ''db2''\<rparr> \<and>
   xid_recover \<lparr>conn_cursor = None, curs_execute = (\<lambda>q. None),
        curs_fetchall = Inr [[PyStr ''1_YWJj_eHl6'', PyStr ''2024-01-02'', PyStr ''bob'',
                              PyStr ''db2'']],
        curs_close = None\<rparr> =
     ([Call_cursor, Call_execute recover_query, Call_fetchall, Call_close,
       Set_member 0 M_prepared, Set_member 0 M_owner, Set_member 0 M_database],
      Inr [Some \<lparr>format_id = PyInt 1, gtrid = PyStr ''abc'', bqual = PyStr ''xyz'',
        prepared = PyStr ''2024-01-02'', owner = PyStr ''bob'', database = PyStr ''db2''\<rparr>]) \<and>
   xid_from_string (PyStr ''1_YWJj_eHl6'') =
     Inr \<lparr>format_id = PyInt 1, gtrid = PyStr ''abc'', bqual = PyStr ''xyz'',
          prepared = PyNone, owner = PyNone, database = PyNone\<rparr> \<and>
   xid_setattr \<lparr>format_id = PyInt 1, gtrid = PyStr ''abc'', bqual = PyStr ''xyz'',
        prepared = PyStr ''2024-01-02'', owner = PyStr ''bob'', database = PyStr ''db2''\<rparr>
       ''gtrid'' (PyStr ''q'') = Inl TypeError \<and>
   PySequence_SetItem xid_sequence
       \<lparr>format_id = PyInt 1, gtrid = PyStr ''abc'', bqual = PyStr ''xyz'',
        prepared = PyStr ''2024-01-02'', owner = PyStr ''bob'', database = PyStr ''db2''\<rparr>
       1 (PyStr ''q'') = Inl TypeError"
proof -
  let ?x = "\<lparr>format_id = PyInt 1, gtrid = PyStr ''abc'', bqual = PyStr ''xyz'',
        prepared = PyStr ''2024-01-02'', owner = PyStr ''bob'', database = PyStr ''db2''\<rparr>"
  let ?c = "\<lparr>conn_cursor = None, curs_execute = (\<lambda>q. None),
        curs_fetchall = Inr [[PyStr ''1_YWJj_eHl6'', PyStr ''2024-01-02'', PyStr ''bob'',
                              PyStr ''db2'']],
        curs_close = None\<rparr>"
  have i: "xid_init ?x (PyInt 2) (PyStr ''q'') (PyStr ''r'') =
     Inr \<lparr>format_id = PyInt 2, gtrid = PyStr ''q'', bqual = PyStr ''r'',
        prepared = PyStr ''2024-01-02'', owner = PyStr ''bob'', database = PyStr ''db2''\<rparr>"
    by code_simp
  have d: "xid_from_string (PyStr ''1_YWJj_eHl6'') =
      Inr \<lparr>format_id = PyInt 1, gtrid = PyStr ''abc'', bqual = PyStr ''xyz'',
           prepared = PyNone, owner = PyNone, database = PyNone\<rparr>"
    by code_simp
  have t: "xid_recover ?c =
     ([Call_cursor, Call_execute recover_query, Call_fetchall, Call_close,
       Set_member 0 M_prepared, Set_member 0 M_owner, Set_member 0 M_database],
      Inr [Some ?x])"
    by (simp add: xid_recover_def recover_loop.simps recover_row_def assign_member_def Let_def
        sequence_getitem_def d)
  have s: "xid_setattr ?x ''gtrid'' (PyStr ''q'') = Inl TypeError"
    by (simp add: xid_setattr_def xid_members_def)
  have a: "PySequence_SetItem xid_sequence ?x 1 (PyStr ''q'') = Inl TypeError"
    by (simp add: PySequence_SetItem_def xid_sequence_def)
  show ?thesis
    using fields_after_construction [of ?x "PyInt 2" "PyStr ''q''" "PyStr ''r''" ?c
        "PyInt 1" "PyStr ''abc''" "PyStr ''xyz''" "PyStr ''1_YWJj_eHl6''"] i d t s a
    by simp
qed

subsection \<open>Signed and unsigned bytes\<close>

lemma shift_mod_256: "128 \<le> k \<Longrightarrow> k < 256 \<Longrightarrow> (k + 128) mod 256 = k - (128::int)"
proof -
  assume a: "128 \<le> k" "k < 256"
  have e: "k + 128 = (k - 128) + 256" by arith
  have "(k + 128) mod 256 = (k - 128) mod 256" unfolding e by (rule mod_add_self2)
  also have "\<dots> = k - 128" using a by simp
  finally show ?thesis .
qed

lemma sint_byte:
  assumes "n < 256"
  shows "sint (word_of_nat n :: 8 word) = (if n < 128 then int n else int n - 256)"
proof (cases "n < 128")
  case True
  then show ?thesis by (simp add: signed_of_nat signed_take_bit_int_eq_self)
next
  case False
  with assms have "(int n + 128) mod 256 = int n - 128"
    by (intro shift_mod_256) simp_all
  with False show ?thesis
    by (simp add: signed_of_nat signed_take_bit_eq_take_bit_shift take_bit_eq_mod)
qed

lemma not_printable_signed_eq: "not_printable_signed c = not_printable c"
proof -
  define n where "n = (of_char c :: nat)"
  have lt: "n < 256" by (simp add: n_def)
  have w: "(of_char c :: 8 word) = word_of_nat n"
    by (simp add: n_def of_nat_of_char)
  have "(sint (word_of_nat n :: 8 word) < 0x20 \<or> sint (word_of_nat n :: 8 word) \<ge> 0x7f)
        = (n < 0x20 \<or> n \<ge> 0x7f)"
    unfolding sint_byte [OF lt] using lt by auto
  then show ?thesis
    unfolding not_printable_signed_def not_printable_def w n_def [symmetric] .
qed

subsection \<open>The Xid as a sequence\<close>

lemma xid_getitem_by_index:
  "xid_len self = 3 \<and>
   xid_getitem self 0 = Inr (format_id self) \<and>
   xid_getitem self 1 = Inr (gtrid self) \<and>
   xid_getitem self 2 = Inr (bqual self) \<and>
   xid_getitem self (- 1) = Inr (bqual self) \<and>
   xid_getitem self (- 2) = Inr (gtrid self) \<and>
   xid_getitem self (- 3) = Inr (format_id self) \<and>
   (\<forall>i. i < - 3 \<or> 2 < i \<longrightarrow> xid_getitem self i = Inl (IndexError ''index out of range''))"
  by (simp add: xid_len_def xid_getitem_def Let_def)

text \<open>
  What \<^verbatim>\<open>x[i]\<close> returns: the index passes through \<^verbatim>\<open>PySequence_GetItem\<close>, which adds
  the length to a negative index, and then through \<^verbatim>\<open>xid_getitem\<close>, which adds 3 to an
  index that is still negative.
\<close>

lemma PySequence_GetItem_xid:
  "PySequence_GetItem xid_sequence self i =
     (if i = 0 \<or> i = - 3 \<or> i = - 6 then Inr (format_id self)
      else if i = 1 \<or> i = - 2 \<or> i = - 5 then Inr (gtrid self)
      else if i = 2 \<or> i = - 1 \<or> i = - 4 then Inr (bqual self)
      else Inl (IndexError ''index out of range''))"
  by (simp add: PySequence_GetItem_def xid_sequence_def xid_len_def xid_getitem_def Let_def)

text \<open>
  C10. \<^verbatim>\<open>xid_len\<close> is 3 and \<^verbatim>\<open>xid_getitem\<close> ends in
  \<^verbatim>\<open>IndexError("index out of range")\<close> for an index that is not one of the three, but a
  negative index is adjusted twice, by the runtime and again by \<^verbatim>\<open>xid_getitem\<close>: for
  \<^verbatim>\<open>x = Xid(1, 'abc', 'xyz')\<close> the indices -4, -5 and -6, which lie outside the sequence,
  return \<open>bqual\<close>, \<open>gtrid\<close> and \<open>format_id\<close> and raise nothing.
\<close>

theorem index_below_minus_three:
  "Xid (PyInt 1) (PyStr ''abc'') (PyStr ''xyz'') =
     Inr \<lparr>format_id = PyInt 1, gtrid = PyStr ''abc'', bqual = PyStr ''xyz'',
      prepared = PyNone, owner = PyNone, database = PyNone\<rparr> \<and>
   PySequence_GetItem xid_sequence
     \<lparr>format_id = PyInt 1, gtrid = PyStr ''abc'', bqual = PyStr ''xyz'',
      prepared = PyNone, owner = PyNone, database = PyNone\<rparr> (- 4) = Inr (PyStr ''xyz'') \<and>
   PySequence_GetItem xid_sequence
     \<lparr>format_id = PyInt 1, gtrid = PyStr ''abc'', bqual = PyStr ''xyz'',
      prepared = PyNone, owner = PyNone, database = PyNone\<rparr> (- 5) = Inr (PyStr ''abc'') \<and>
   PySequence_GetItem xid_sequence
     \<lparr>format_id = PyInt 1, gtrid = PyStr ''abc'', bqual = PyStr ''xyz'',
      prepared = PyNone, owner = PyNone, database = PyNone\<rparr> (- 6) = Inr (PyInt 1)"
  by code_simp

end
